theory Spec2Isabelle
  imports Main "HOL-Library.Word" "HOL-Library.Signed_Division"
begin

unbundle bit_operations_syntax

section \<open>Data model of \<open>pkg/package.go\<close>\<close>

text \<open>
  Go's \<open>byte\<close> is an 8-bit value and a Go \<open>string\<close> is an immutable sequence of bytes;
  \<open>string(data)\<close> copies the bytes unchanged. Both are lists of \<^typ>\<open>char\<close> here
  (a \<^typ>\<open>char\<close> is exactly eight bits). \<open>int32\<close> and \<open>uint16\<close> are machine words,
  read signed with \<^const>\<open>sint\<close> where Go converts \<open>int32\<close> to \<open>int\<close>. Go's \<open>int\<close>
  (64 bits) only ever holds a sign-extended \<open>int32\<close> or a byte length that is divided by a
  constant, so it is \<^typ>\<open>int\<close>.
\<close>

type_synonym byte = char
type_synonym bytes = "char list"
type_synonym int32 = "32 word"
type_synonym uint16 = "16 word"

definition NUL :: byte where
  "NUL = CHR 0x00"

record FileInfo =
  Path :: string
  Mode :: uint16
  SHA256 :: string
  Size :: int32

record PackageInfo =
  Epoch :: int
  Name :: string
  Version :: string
  Release :: string
  Arch :: string
  SourceRpm :: string
  Size :: int
  License :: string
  Vendor :: string
  Files :: "FileInfo list"

text \<open>
  Modelled from the spec: the declaration of \<open>indexEntry\<close> (and of its \<open>Info\<close> field) is
  not part of \<open>package.go\<close>. The spec gives an index entry as
  \<open>{tag: int32, declaredType: int32, data: bytes, byteLength: int}\<close>; the source reads it
  as \<open>indexEntry.Info.Tag\<close>, \<open>indexEntry.Info.Type\<close>, \<open>indexEntry.Data\<close> and
  \<open>indexEntry.Length\<close>.
\<close>

record entryInfo =
  Tag :: int32
  Type :: int32

record indexEntry =
  Info :: entryInfo
  Length :: int
  Data :: bytes

subsection \<open>Constants (\<open>rpmTag_e\<close>, \<open>rpmTagType_e\<close>)\<close>

definition RPMTAG_NAME :: int32 where "RPMTAG_NAME = 1000"
definition RPMTAG_VERSION :: int32 where "RPMTAG_VERSION = 1001"
definition RPMTAG_RELEASE :: int32 where "RPMTAG_RELEASE = 1002"
definition RPMTAG_EPOCH :: int32 where "RPMTAG_EPOCH = 1003"
definition RPMTAG_ARCH :: int32 where "RPMTAG_ARCH = 1022"
definition RPMTAG_SOURCERPM :: int32 where "RPMTAG_SOURCERPM = 1044"
definition RPMTAG_SIZE :: int32 where "RPMTAG_SIZE = 1009"
definition RPMTAG_LICENSE :: int32 where "RPMTAG_LICENSE = 1014"
definition RPMTAG_VENDOR :: int32 where "RPMTAG_VENDOR = 1011"
definition RPMTAG_DIRINDEXES :: int32 where "RPMTAG_DIRINDEXES = 1116"
definition RPMTAG_BASENAMES :: int32 where "RPMTAG_BASENAMES = 1117"
definition RPMTAG_DIRNAMES :: int32 where "RPMTAG_DIRNAMES = 1118"
definition RPMTAG_FILESIZES :: int32 where "RPMTAG_FILESIZES = 1028"
definition RPMTAG_FILEMODES :: int32 where "RPMTAG_FILEMODES = 1030"
definition RPMTAG_FILEDIGESTS :: int32 where "RPMTAG_FILEDIGESTS = 1035"

definition RPM_NULL_TYPE :: int32 where "RPM_NULL_TYPE = 0"
definition RPM_CHAR_TYPE :: int32 where "RPM_CHAR_TYPE = 1"
definition RPM_INT8_TYPE :: int32 where "RPM_INT8_TYPE = 2"
definition RPM_INT16_TYPE :: int32 where "RPM_INT16_TYPE = 3"
definition RPM_INT32_TYPE :: int32 where "RPM_INT32_TYPE = 4"
definition RPM_INT64_TYPE :: int32 where "RPM_INT64_TYPE = 5"
definition RPM_STRING_TYPE :: int32 where "RPM_STRING_TYPE = 6"
definition RPM_BIN_TYPE :: int32 where "RPM_BIN_TYPE = 7"
definition RPM_STRING_ARRAY_TYPE :: int32 where "RPM_STRING_ARRAY_TYPE = 8"
definition RPM_I18NSTRING_TYPE :: int32 where "RPM_I18NSTRING_TYPE = 9"

definition sizeOfInt32 :: int where "sizeOfInt32 = 4"
definition sizeOfUInt16 :: int where "sizeOfUInt16 = 2"

subsection \<open>Outcomes: returned errors and run-time panics\<close>

text \<open>
  An \<open>error\<close> value is either one of the two sentinels \<open>io.ReadFull\<close> can hand back,
  a fresh \<open>xerrors.New(msg)\<close>, or \<open>xerrors.Errorf("msg: %w", err)\<close> wrapping another
  error (the message prefix is kept without the \<open>": %w"\<close> verb).

  A Go function can also leave by a run-time panic, which is not a returned value. The
  source can panic in two ways: an index expression out of range (line 272 indexes
  \<open>allDirIndexes\<close> and then \<open>allDirs\<close>, neither guarded), and \<open>make\<close> with a length
  that is negative or too large (\<open>makeslice: len out of range\<close>). An index panic records
  which slice was indexed, the index and the slice's length, as Go's message
  \<open>index out of range [i] with length n\<close> does.
\<close>

datatype error =
    EOF
  | ErrUnexpectedEOF
  | New string
  | Errorf string error

datatype indexed = AllDirIndexes | AllDirs

datatype panic =
    IndexOutOfRange indexed int nat
  | MakeSliceLenOutOfRange

datatype 'a exec = Return 'a | Panic panic

fun rootCause :: "error \<Rightarrow> error" where
  "rootCause (Errorf msg err) = rootCause err"
| "rootCause err = err"

section \<open>Standard-library operations used by the source\<close>

text \<open>
  \<open>io.ReadFull\<close> on a fresh \<open>bytes.Reader\<close> over \<open>data\<close>, into a buffer of \<open>n\<close> bytes:
  the first \<open>n\<close> bytes, or \<open>EOF\<close> when nothing at all could be read and
  \<open>ErrUnexpectedEOF\<close> when the data ends inside the buffer. A buffer of length 0 is
  filled without reading.
\<close>

definition readFull :: "bytes \<Rightarrow> nat \<Rightarrow> error + bytes" where
  "readFull data n =
     (if n \<le> length data then Inr (take n data)
      else if data = [] then Inl EOF
      else Inl ErrUnexpectedEOF)"

text \<open>\<open>binary.BigEndian.Uint32\<close> and \<open>Uint16\<close> on the first bytes of a buffer.\<close>

definition bigEndianUint32 :: "bytes \<Rightarrow> 32 word" where
  "bigEndianUint32 b =
     of_char (b ! 3) OR push_bit 8 (of_char (b ! 2)) OR
     push_bit 16 (of_char (b ! 1)) OR push_bit 24 (of_char (b ! 0))"

definition bigEndianUint16 :: "bytes \<Rightarrow> 16 word" where
  "bigEndianUint16 b = of_char (b ! 1) OR push_bit 8 (of_char (b ! 0))"

text \<open>
  \<open>binary.Read\<close> into a slice of \<open>n\<close> elements decodes them one after the other from
  the buffer it has read in full (\<open>4 * n\<close> or \<open>2 * n\<close> bytes).
\<close>

fun decodeInt32s :: "nat \<Rightarrow> bytes \<Rightarrow> int32 list" where
  "decodeInt32s 0 buf = []"
| "decodeInt32s (Suc n) buf = bigEndianUint32 buf # decodeInt32s n (drop 4 buf)"

fun decodeUInt16s :: "nat \<Rightarrow> bytes \<Rightarrow> uint16 list" where
  "decodeUInt16s 0 buf = []"
| "decodeUInt16s (Suc n) buf = bigEndianUint16 buf # decodeUInt16s n (drop 2 buf)"

text \<open>
  \<open>bytes.TrimRight(s, cutset)\<close> with a one-byte cutset is the loop of \<open>trimRightByte\<close>:
  \<open>for len(s) > 0 && s[len(s)-1] == c { s = s[:len(s)-1] }\<close>.
\<close>

function trimRightByte :: "bytes \<Rightarrow> byte \<Rightarrow> bytes" where
  "trimRightByte s c = (if s \<noteq> [] \<and> last s = c then trimRightByte (butlast s) c else s)"
  by pat_completeness auto
termination
  by (relation "measure (\<lambda>(s, c). length s)") auto

declare trimRightByte.simps [simp del]

text \<open>
  \<open>strings.Split(s, sep)\<close> with a one-byte separator: cut at the first occurrence of the
  separator (\<open>Index\<close>), keep the part before it, go on after it; the rest without a
  separator is the last element. The result always has at least one element.
\<close>

function Split :: "bytes \<Rightarrow> byte \<Rightarrow> string list" where
  "Split s sep =
     (case dropWhile (\<lambda>c. c \<noteq> sep) s of
        [] \<Rightarrow> [s]
      | _ # rest \<Rightarrow> takeWhile (\<lambda>c. c \<noteq> sep) s # Split rest sep)"
  by pat_completeness auto
termination
proof (relation "measure (\<lambda>(s, sep). length s)")
  show "wf (measure (\<lambda>(s, sep). length s))" by simp
next
  fix s :: bytes and sep :: byte and x21 x22
  assume h: "dropWhile (\<lambda>c. c \<noteq> sep) s = x21 # x22"
  have "length (dropWhile (\<lambda>c. c \<noteq> sep) s) \<le> length s"
    by (rule length_dropWhile_le)
  with h show "((x22, sep), (s, sep)) \<in> measure (\<lambda>(s, sep). length s)"
    by simp
qed

declare Split.simps [simp del]

section \<open>Primitive decoders\<close>

definition parseStringArray :: "bytes \<Rightarrow> string list" where
  "parseStringArray data =
     (let elements = Split data NUL in
      if length elements > 0 \<and> elements ! (length elements - 1) = []
      then take (length elements - 1) elements
      else elements)"

definition parseString :: "bytes \<Rightarrow> string" where
  "parseString data = trimRightByte data NUL"

definition parseInt32 :: "bytes \<Rightarrow> error + int" where
  "parseInt32 data =
     (case readFull data 4 of
        Inl err \<Rightarrow> Inl (Errorf ''failed to read binary'' err)
      | Inr buf \<Rightarrow> Inr (sint (bigEndianUint32 buf)))"

text \<open>
  Go's \<open>/\<close> on \<open>int\<close> truncates towards zero (\<^const>\<open>signed_divide\<close>).

  \<open>make([]T, length)\<close> is the runtime's \<open>makeslice\<close>: it panics with
  \<open>makeslice: len out of range\<close> when \<open>length\<close> is negative or when the size of the slice
  in bytes, element size times \<open>length\<close>, overflows or exceeds the runtime's constant
  \<open>maxAlloc\<close>. That constant is \<open>1 << heapAddrBits\<close> (\<open>2^48\<close>), with 48 address bits on the 64-bit
  platforms (linux/amd64 among them) where Go's \<open>int\<close> has the 64 bits assumed above; the
  size is computed here without overflow, so the one comparison covers both tests.
  Below that limit the allocation is taken to succeed: running out of memory, which ends
  the process with a fatal error and not with a panic or a returned error, depends on the
  machine and is not modelled. A byte slice that exists is itself no longer than
  \<open>maxAlloc\<close>.
\<close>

definition maxAlloc :: int where
  "maxAlloc = 281474976710656"

definition parseInt32Array :: "bytes \<Rightarrow> int \<Rightarrow> (error + int32 list) exec" where
  "parseInt32Array data arraySize =
     (let length = arraySize sdiv sizeOfInt32 in
      if length < 0 \<or> maxAlloc < 4 * length then Panic MakeSliceLenOutOfRange
      else case readFull data (4 * nat length) of
             Inl err \<Rightarrow> Return (Inl (Errorf ''failed to read binary'' err))
           | Inr buf \<Rightarrow> Return (Inr (decodeInt32s (nat length) buf)))"

definition parseUInt16Array :: "bytes \<Rightarrow> int \<Rightarrow> (error + uint16 list) exec" where
  "parseUInt16Array data arraySize =
     (let length = arraySize sdiv sizeOfUInt16 in
      if length < 0 \<or> maxAlloc < 2 * length then Panic MakeSliceLenOutOfRange
      else case readFull data (2 * nat length) of
             Inl err \<Rightarrow> Return (Inl (Errorf ''failed to read binary'' err))
           | Inr buf \<Rightarrow> Return (Inr (decodeUInt16s (nat length) buf)))"

section \<open>The package field assembler: \<open>newPackage\<close>\<close>

text \<open>The zero value \<open>&PackageInfo{}\<close>.\<close>

definition emptyPackageInfo :: PackageInfo where
  "emptyPackageInfo =
     \<lparr>Epoch = 0, Name = [], Version = [], Release = [], Arch = [], SourceRpm = [],
      PackageInfo.Size = 0, License = [], Vendor = [], Files = []\<rparr>"

text \<open>
  The body of the loop of lines 114 to 179: the \<open>switch\<close> on the entry's tag, its cases
  in the order of the source. \<open>Inl\<close> is an early \<open>return nil, err\<close>; \<open>Inr\<close> is the
  package record after the entry.
\<close>

definition newPackage_switch :: "PackageInfo \<Rightarrow> indexEntry \<Rightarrow> error + PackageInfo" where
  "newPackage_switch pkgInfo indexEntry =
     (if Tag (Info indexEntry) = RPMTAG_NAME then
        if Type (Info indexEntry) \<noteq> RPM_STRING_TYPE then Inl (New ''invalid tag name'')
        else Inr (pkgInfo\<lparr>Name := parseString (Data indexEntry)\<rparr>)
      else if Tag (Info indexEntry) = RPMTAG_EPOCH then
        if Type (Info indexEntry) \<noteq> RPM_INT32_TYPE then Inl (New ''invalid tag epoch'')
        else (case parseInt32 (Data indexEntry) of
                Inl err \<Rightarrow> Inl (Errorf ''failed to parse epoch'' err)
              | Inr v \<Rightarrow> Inr (pkgInfo\<lparr>Epoch := v\<rparr>))
      else if Tag (Info indexEntry) = RPMTAG_VERSION then
        if Type (Info indexEntry) \<noteq> RPM_STRING_TYPE then Inl (New ''invalid tag version'')
        else Inr (pkgInfo\<lparr>Version := parseString (Data indexEntry)\<rparr>)
      else if Tag (Info indexEntry) = RPMTAG_RELEASE then
        if Type (Info indexEntry) \<noteq> RPM_STRING_TYPE then Inl (New ''invalid tag release'')
        else Inr (pkgInfo\<lparr>Release := parseString (Data indexEntry)\<rparr>)
      else if Tag (Info indexEntry) = RPMTAG_ARCH then
        if Type (Info indexEntry) \<noteq> RPM_STRING_TYPE then Inl (New ''invalid tag arch'')
        else Inr (pkgInfo\<lparr>Arch := parseString (Data indexEntry)\<rparr>)
      else if Tag (Info indexEntry) = RPMTAG_SOURCERPM then
        if Type (Info indexEntry) \<noteq> RPM_STRING_TYPE then Inl (New ''invalid tag sourcerpm'')
        else (let p = pkgInfo\<lparr>SourceRpm := parseString (Data indexEntry)\<rparr> in
              if SourceRpm p = ''(none)'' then Inr (p\<lparr>SourceRpm := []\<rparr>) else Inr p)
      else if Tag (Info indexEntry) = RPMTAG_LICENSE then
        if Type (Info indexEntry) \<noteq> RPM_STRING_TYPE then Inl (New ''invalid tag license'')
        else (let p = pkgInfo\<lparr>License := parseString (Data indexEntry)\<rparr> in
              if License p = ''(none)'' then Inr (p\<lparr>License := []\<rparr>) else Inr p)
      else if Tag (Info indexEntry) = RPMTAG_VENDOR then
        if Type (Info indexEntry) \<noteq> RPM_STRING_TYPE then Inl (New ''invalid tag vendor'')
        else (let p = pkgInfo\<lparr>Vendor := parseString (Data indexEntry)\<rparr> in
              if Vendor p = ''(none)'' then Inr (p\<lparr>Vendor := []\<rparr>) else Inr p)
      else if Tag (Info indexEntry) = RPMTAG_SIZE then
        if Type (Info indexEntry) \<noteq> RPM_INT32_TYPE then Inl (New ''invalid tag size'')
        else (case parseInt32 (Data indexEntry) of
                Inl err \<Rightarrow> Inl (Errorf ''failed to parse size'' err)
              | Inr v \<Rightarrow> Inr (pkgInfo\<lparr>PackageInfo.Size := v\<rparr>))
      else Inr pkgInfo)"

fun newPackage_loop :: "PackageInfo \<Rightarrow> indexEntry list \<Rightarrow> error + PackageInfo" where
  "newPackage_loop pkgInfo [] = Inr pkgInfo"
| "newPackage_loop pkgInfo (indexEntry # rest) =
     (case newPackage_switch pkgInfo indexEntry of
        Inl err \<Rightarrow> Inl err
      | Inr pkgInfo' \<Rightarrow> newPackage_loop pkgInfo' rest)"

section \<open>The file list reconstructor: \<open>getFileInfo\<close>\<close>

text \<open>
  The six local slices of \<open>getFileInfo\<close>. A Go slice variable is \<open>nil\<close> until assigned,
  and the zipping stage tests for \<open>nil\<close>, so each is an option: \<open>None\<close> is \<open>nil\<close>.
  Every decoder returns a non-nil slice on success (\<open>strings.Split\<close> with a non-empty
  separator returns at least one element and a reslice of it is not \<open>nil\<close>; \<open>make\<close>
  never returns \<open>nil\<close>), so an assignment always stores \<open>Some\<close>.
\<close>

record fileArrays =
  allBasenames :: "string list option"
  allDirs :: "string list option"
  allDirIndexes :: "int32 list option"
  allFileDigests :: "string list option"
  allFileModes :: "uint16 list option"
  allFileSizes :: "int32 list option"

definition nilFileArrays :: fileArrays where
  "nilFileArrays =
     \<lparr>allBasenames = None, allDirs = None, allDirIndexes = None,
      allFileDigests = None, allFileModes = None, allFileSizes = None\<rparr>"

text \<open>
  The body of the collection loop of lines 203 to 249. \<open>Return (Inl err)\<close> is an early
  \<open>return nil, err\<close>, \<open>Panic\<close> a panic inside a decoder.
\<close>

definition getFileInfo_switch :: "fileArrays \<Rightarrow> indexEntry \<Rightarrow> (error + fileArrays) exec" where
  "getFileInfo_switch vars indexEntry =
     (if Tag (Info indexEntry) = RPMTAG_FILESIZES then
        if Type (Info indexEntry) \<noteq> RPM_INT32_TYPE
        then Return (Inl (New ''invalid tag file-sizes''))
        else (case parseInt32Array (Data indexEntry) (Length indexEntry) of
                Panic p \<Rightarrow> Panic p
              | Return (Inl err) \<Rightarrow> Return (Inl (Errorf ''failed to parse file-sizes'' err))
              | Return (Inr vs) \<Rightarrow> Return (Inr (vars\<lparr>allFileSizes := Some vs\<rparr>)))
      else if Tag (Info indexEntry) = RPMTAG_FILEDIGESTS then
        if Type (Info indexEntry) \<noteq> RPM_STRING_ARRAY_TYPE
        then Return (Inl (New ''invalid tag file-digests''))
        else Return (Inr (vars\<lparr>allFileDigests := Some (parseStringArray (Data indexEntry))\<rparr>))
      else if Tag (Info indexEntry) = RPMTAG_FILEMODES then
        if Type (Info indexEntry) \<noteq> RPM_INT16_TYPE
        then Return (Inl (New ''invalid tag file-modes''))
        else (case parseUInt16Array (Data indexEntry) (Length indexEntry) of
                Panic p \<Rightarrow> Panic p
              | Return (Inl err) \<Rightarrow> Return (Inl (Errorf ''failed to parse file-modes'' err))
              | Return (Inr vs) \<Rightarrow> Return (Inr (vars\<lparr>allFileModes := Some vs\<rparr>)))
      else if Tag (Info indexEntry) = RPMTAG_BASENAMES then
        if Type (Info indexEntry) \<noteq> RPM_STRING_ARRAY_TYPE
        then Return (Inl (New ''invalid tag basenames''))
        else Return (Inr (vars\<lparr>allBasenames := Some (parseStringArray (Data indexEntry))\<rparr>))
      else if Tag (Info indexEntry) = RPMTAG_DIRNAMES then
        if Type (Info indexEntry) \<noteq> RPM_STRING_ARRAY_TYPE
        then Return (Inl (New ''invalid tag dir-names''))
        else Return (Inr (vars\<lparr>allDirs := Some (parseStringArray (Data indexEntry))\<rparr>))
      else if Tag (Info indexEntry) = RPMTAG_DIRINDEXES then
        if Type (Info indexEntry) \<noteq> RPM_INT32_TYPE
        then Return (Inl (New ''invalid tag dir-indexes''))
        else (case parseInt32Array (Data indexEntry) (Length indexEntry) of
                Panic p \<Rightarrow> Panic p
              | Return (Inl err) \<Rightarrow> Return (Inl (Errorf ''failed to parse dir-indexes'' err))
              | Return (Inr vs) \<Rightarrow> Return (Inr (vars\<lparr>allDirIndexes := Some vs\<rparr>)))
      else Return (Inr vars))"

fun getFileInfo_loop :: "fileArrays \<Rightarrow> indexEntry list \<Rightarrow> (error + fileArrays) exec" where
  "getFileInfo_loop vars [] = Return (Inr vars)"
| "getFileInfo_loop vars (indexEntry # rest) =
     (case getFileInfo_switch vars indexEntry of
        Panic p \<Rightarrow> Panic p
      | Return (Inl err) \<Rightarrow> Return (Inl err)
      | Return (Inr vars') \<Rightarrow> getFileInfo_loop vars' rest)"

text \<open>
  The body of the zipping loop (lines 255 to 276) for index \<open>i\<close> and base name \<open>file\<close>,
  entered only when \<open>allDirs\<close> and \<open>allDirIndexes\<close> are not \<open>nil\<close>. The three guarded
  reads fall back to the zero value. Line 272 evaluates \<open>allDirIndexes[i]\<close> first and
  then indexes \<open>allDirs\<close> with the \<open>int32\<close> it found; Go checks both and panics on
  either, a negative index included.
\<close>

definition fileRecord ::
  "fileArrays \<Rightarrow> string list \<Rightarrow> int32 list \<Rightarrow> nat \<Rightarrow> string \<Rightarrow> FileInfo exec" where
  "fileRecord vars dirs dirIndexes i file =
     (let digest = (case allFileDigests vars of
                      Some ds \<Rightarrow> if length ds > i then ds ! i else []
                    | None \<Rightarrow> []);
          mode = (case allFileModes vars of
                    Some ms \<Rightarrow> if length ms > i then ms ! i else 0
                  | None \<Rightarrow> 0);
          size = (case allFileSizes vars of
                    Some ss \<Rightarrow> if length ss > i then ss ! i else 0
                  | None \<Rightarrow> 0)
      in if \<not> i < length dirIndexes
         then Panic (IndexOutOfRange AllDirIndexes (int i) (length dirIndexes))
         else if \<not> (0 \<le> sint (dirIndexes ! i) \<and> sint (dirIndexes ! i) < int (length dirs))
         then Panic (IndexOutOfRange AllDirs (sint (dirIndexes ! i)) (length dirs))
         else Return \<lparr>Path = dirs ! nat (sint (dirIndexes ! i)) @ file, Mode = mode,
                       SHA256 = digest, FileInfo.Size = size\<rparr>)"

text \<open>
  \<open>for i, file := range allBasenames\<close>: \<open>i\<close> counts the base names already visited,
  \<open>files\<close> is the slice appended to.
\<close>

fun getFileInfo_zip ::
  "fileArrays \<Rightarrow> string list \<Rightarrow> int32 list \<Rightarrow> nat \<Rightarrow> string list \<Rightarrow> FileInfo list
     \<Rightarrow> FileInfo list exec" where
  "getFileInfo_zip vars dirs dirIndexes i [] files = Return files"
| "getFileInfo_zip vars dirs dirIndexes i (file # rest) files =
     (case fileRecord vars dirs dirIndexes i file of
        Panic p \<Rightarrow> Panic p
      | Return record \<Rightarrow> getFileInfo_zip vars dirs dirIndexes (Suc i) rest (files @ [record]))"

text \<open>
  Go's pair \<open>([]FileInfo, error)\<close>: the error is \<open>None\<close> for \<open>nil\<close>. A \<open>nil\<close> slice of
  files and an empty one both have length 0 and are the empty list. Ranging over a \<open>nil\<close>
  \<open>allBasenames\<close> makes no iteration.
\<close>

definition getFileInfo :: "indexEntry list \<Rightarrow> (FileInfo list \<times> error option) exec" where
  "getFileInfo indexEntries =
     (case getFileInfo_loop nilFileArrays indexEntries of
        Panic p \<Rightarrow> Panic p
      | Return (Inl err) \<Rightarrow> Return ([], Some err)
      | Return (Inr vars) \<Rightarrow>
          (case (allDirs vars, allDirIndexes vars) of
             (Some dirs, Some dirIndexes) \<Rightarrow>
               (case getFileInfo_zip vars dirs dirIndexes 0
                       (case allBasenames vars of None \<Rightarrow> [] | Some bs \<Rightarrow> bs) [] of
                  Panic p \<Rightarrow> Panic p
                | Return files \<Rightarrow> Return (files, None))
           | _ \<Rightarrow> Return ([], None)))"

text \<open>
  Go's pair \<open>(*PackageInfo, error)\<close>: the pointer is \<open>None\<close> for \<open>nil\<close>, the error is
  \<open>None\<close> for \<open>nil\<close>.
\<close>

definition newPackage :: "indexEntry list \<Rightarrow> (PackageInfo option \<times> error option) exec" where
  "newPackage indexEntries =
     (case newPackage_loop emptyPackageInfo indexEntries of
        Inl err \<Rightarrow> Return (None, Some err)
      | Inr pkgInfo \<Rightarrow>
          (case getFileInfo indexEntries of
             Panic p \<Rightarrow> Panic p
           | Return (files, Some err) \<Rightarrow>
               Return (None, Some (Errorf ''failed to read package files'' err))
           | Return (files, None) \<Rightarrow> Return (Some (pkgInfo\<lparr>Files := files\<rparr>), None)))"

section \<open>Vocabulary of the claims\<close>

text \<open>
  The definitions of this section are not part of the program: they name what the claims
  speak about (the spec's error kinds, its tag catalog, well-formed entries, the record a
  file is zipped into), so that the theorems below can be read against the spec.
\<close>

subsection \<open>Error kinds\<close>

text \<open>
  The spec's \<open>DecodeError\<close> (payload too short for a fixed-width read) is, in the source,
  an error whose innermost cause is one of the two errors of \<open>io.ReadFull\<close>.
\<close>

definition isDecodeError :: "error \<Rightarrow> bool" where
  "isDecodeError err \<longleftrightarrow> rootCause err = EOF \<or> rootCause err = ErrUnexpectedEOF"

text \<open>
  The spec's \<open>InvalidTagType{tag}\<close> is, in the source, the error
  \<open>xerrors.New("invalid tag <name>")\<close> of the \<open>case\<close> of that tag; \<open>newPackage\<close> wraps
  the ones raised by \<open>getFileInfo\<close>.
\<close>

definition invalidTagType :: "int32 \<Rightarrow> error" where
  "invalidTagType tag =
     New (''invalid tag '' @
          (if tag = RPMTAG_NAME then ''name''
           else if tag = RPMTAG_EPOCH then ''epoch''
           else if tag = RPMTAG_VERSION then ''version''
           else if tag = RPMTAG_RELEASE then ''release''
           else if tag = RPMTAG_ARCH then ''arch''
           else if tag = RPMTAG_SOURCERPM then ''sourcerpm''
           else if tag = RPMTAG_LICENSE then ''license''
           else if tag = RPMTAG_VENDOR then ''vendor''
           else if tag = RPMTAG_SIZE then ''size''
           else if tag = RPMTAG_FILESIZES then ''file-sizes''
           else if tag = RPMTAG_FILEDIGESTS then ''file-digests''
           else if tag = RPMTAG_FILEMODES then ''file-modes''
           else if tag = RPMTAG_BASENAMES then ''basenames''
           else if tag = RPMTAG_DIRNAMES then ''dir-names''
           else if tag = RPMTAG_DIRINDEXES then ''dir-indexes''
           else []))"

definition recognizedTags :: "int32 list" where
  "recognizedTags =
     [RPMTAG_NAME, RPMTAG_VERSION, RPMTAG_RELEASE, RPMTAG_EPOCH, RPMTAG_ARCH,
      RPMTAG_SOURCERPM, RPMTAG_SIZE, RPMTAG_LICENSE, RPMTAG_VENDOR, RPMTAG_FILESIZES,
      RPMTAG_FILEMODES, RPMTAG_FILEDIGESTS, RPMTAG_BASENAMES, RPMTAG_DIRNAMES,
      RPMTAG_DIRINDEXES]"

definition isInvalidTagType :: "error \<Rightarrow> bool" where
  "isInvalidTagType err \<longleftrightarrow> rootCause err \<in> set (map invalidTagType recognizedTags)"

subsection \<open>The tag catalog and well-formed entries\<close>

text \<open>
  The tag-to-type catalog of the spec (section 6): the expected type code of each of the
  fifteen recognized tags. The source has no such table; it realises it as the type test at
  the head of each \<open>case\<close>. Nine tags are read by the scalar pass of \<open>newPackage\<close>, six by
  the collection pass of \<open>getFileInfo\<close>.
\<close>

definition catalog :: "int32 \<Rightarrow> int32 option" where
  "catalog tag =
     (if tag = RPMTAG_NAME then Some RPM_STRING_TYPE
      else if tag = RPMTAG_VERSION then Some RPM_STRING_TYPE
      else if tag = RPMTAG_RELEASE then Some RPM_STRING_TYPE
      else if tag = RPMTAG_EPOCH then Some RPM_INT32_TYPE
      else if tag = RPMTAG_VENDOR then Some RPM_STRING_TYPE
      else if tag = RPMTAG_LICENSE then Some RPM_STRING_TYPE
      else if tag = RPMTAG_SIZE then Some RPM_INT32_TYPE
      else if tag = RPMTAG_ARCH then Some RPM_STRING_TYPE
      else if tag = RPMTAG_SOURCERPM then Some RPM_STRING_TYPE
      else if tag = RPMTAG_FILESIZES then Some RPM_INT32_TYPE
      else if tag = RPMTAG_FILEMODES then Some RPM_INT16_TYPE
      else if tag = RPMTAG_FILEDIGESTS then Some RPM_STRING_ARRAY_TYPE
      else if tag = RPMTAG_BASENAMES then Some RPM_STRING_ARRAY_TYPE
      else if tag = RPMTAG_DIRINDEXES then Some RPM_INT32_TYPE
      else if tag = RPMTAG_DIRNAMES then Some RPM_STRING_ARRAY_TYPE
      else None)"

definition scalarTag :: "int32 \<Rightarrow> bool" where
  "scalarTag tag \<longleftrightarrow>
     tag = RPMTAG_NAME \<or> tag = RPMTAG_EPOCH \<or> tag = RPMTAG_VERSION \<or>
     tag = RPMTAG_RELEASE \<or> tag = RPMTAG_ARCH \<or> tag = RPMTAG_SOURCERPM \<or>
     tag = RPMTAG_LICENSE \<or> tag = RPMTAG_VENDOR \<or> tag = RPMTAG_SIZE"

definition fileTag :: "int32 \<Rightarrow> bool" where
  "fileTag tag \<longleftrightarrow>
     tag = RPMTAG_FILESIZES \<or> tag = RPMTAG_FILEDIGESTS \<or> tag = RPMTAG_FILEMODES \<or>
     tag = RPMTAG_BASENAMES \<or> tag = RPMTAG_DIRNAMES \<or> tag = RPMTAG_DIRINDEXES"

definition typeMismatch :: "indexEntry \<Rightarrow> bool" where
  "typeMismatch e \<longleftrightarrow>
     (case catalog (Tag (Info e)) of None \<Rightarrow> False | Some ty \<Rightarrow> Type (Info e) \<noteq> ty)"

text \<open>
  An entry decodes when its payload is long enough for the fixed-width read its tag asks
  for, and, for the three integer arrays, when the slice for the element count computed
  from the declared byte length can be made: the count is not negative and the slice is
  within \<open>maxAlloc\<close> (which the payload, a slice at least as long, already is in any
  running program). An entry is well-formed when its declared type agrees with the catalog
  and it decodes; an entry with an unrecognized tag is always well-formed.
\<close>

definition decodable :: "indexEntry \<Rightarrow> bool" where
  "decodable e \<longleftrightarrow>
     (if Tag (Info e) = RPMTAG_EPOCH \<or> Tag (Info e) = RPMTAG_SIZE
      then 4 \<le> length (Data e)
      else if Tag (Info e) = RPMTAG_FILESIZES \<or> Tag (Info e) = RPMTAG_DIRINDEXES
      then 0 \<le> Length e sdiv 4 \<and> 4 * (Length e sdiv 4) \<le> maxAlloc \<and>
           4 * nat (Length e sdiv 4) \<le> length (Data e)
      else if Tag (Info e) = RPMTAG_FILEMODES
      then 0 \<le> Length e sdiv 2 \<and> 2 * (Length e sdiv 2) \<le> maxAlloc \<and>
           2 * nat (Length e sdiv 2) \<le> length (Data e)
      else True)"

definition wellFormed :: "indexEntry \<Rightarrow> bool" where
  "wellFormed e \<longleftrightarrow> \<not> typeMismatch e \<and> decodable e"

subsection \<open>The zipping stage\<close>

text \<open>
  The directory look-up \<open>allDirs[allDirIndexes[i]]\<close> of line 272 is in bounds when
  \<open>allDirIndexes\<close> has an element \<open>i\<close> and that element addresses an element of
  \<open>allDirs\<close>. Otherwise Go panics at the first of the two index expressions that is out of
  range. \<open>zippedRecord\<close> is the record built for file \<open>i\<close> when the look-up is in bounds.
\<close>

definition dirIndexInBounds :: "string list \<Rightarrow> int32 list \<Rightarrow> nat \<Rightarrow> bool" where
  "dirIndexInBounds dirs dirIndexes i \<longleftrightarrow>
     i < length dirIndexes \<and> 0 \<le> sint (dirIndexes ! i) \<and>
     sint (dirIndexes ! i) < int (length dirs)"

definition indexPanic :: "string list \<Rightarrow> int32 list \<Rightarrow> nat \<Rightarrow> panic" where
  "indexPanic dirs dirIndexes i =
     (if i < length dirIndexes
      then IndexOutOfRange AllDirs (sint (dirIndexes ! i)) (length dirs)
      else IndexOutOfRange AllDirIndexes (int i) (length dirIndexes))"

definition zippedRecord :: "fileArrays \<Rightarrow> string list \<Rightarrow> int32 list \<Rightarrow> nat \<Rightarrow> string \<Rightarrow> FileInfo" where
  "zippedRecord vars dirs dirIndexes i file =
     \<lparr>Path = dirs ! nat (sint (dirIndexes ! i)) @ file,
      Mode = (case allFileModes vars of Some ms \<Rightarrow> if length ms > i then ms ! i else 0 | None \<Rightarrow> 0),
      SHA256 = (case allFileDigests vars of Some ds \<Rightarrow> if length ds > i then ds ! i else [] | None \<Rightarrow> []),
      FileInfo.Size = (case allFileSizes vars of Some ss \<Rightarrow> if length ss > i then ss ! i else 0 | None \<Rightarrow> 0)\<rparr>"

subsection \<open>Scalar fields\<close>

text \<open>
  The field of \<open>PackageInfo\<close> a scalar tag is stored in, and the value the \<open>case\<close> of that
  tag computes from an entry's payload (for \<open>SOURCERPM\<close>, \<open>LICENSE\<close> and \<open>VENDOR\<close> the
  sentinel \<open>"(none)"\<close> is replaced by the empty string; \<open>None\<close> when an integer does not
  decode).
\<close>

datatype fieldValue = StringValue string | IntValue int

definition scalarField :: "int32 \<Rightarrow> PackageInfo \<Rightarrow> fieldValue option" where
  "scalarField tag pkgInfo =
     (if tag = RPMTAG_NAME then Some (StringValue (Name pkgInfo))
      else if tag = RPMTAG_EPOCH then Some (IntValue (Epoch pkgInfo))
      else if tag = RPMTAG_VERSION then Some (StringValue (Version pkgInfo))
      else if tag = RPMTAG_RELEASE then Some (StringValue (Release pkgInfo))
      else if tag = RPMTAG_ARCH then Some (StringValue (Arch pkgInfo))
      else if tag = RPMTAG_SOURCERPM then Some (StringValue (SourceRpm pkgInfo))
      else if tag = RPMTAG_LICENSE then Some (StringValue (License pkgInfo))
      else if tag = RPMTAG_VENDOR then Some (StringValue (Vendor pkgInfo))
      else if tag = RPMTAG_SIZE then Some (IntValue (PackageInfo.Size pkgInfo))
      else None)"

definition decodedValue :: "indexEntry \<Rightarrow> fieldValue option" where
  "decodedValue e =
     (if Tag (Info e) = RPMTAG_NAME \<or> Tag (Info e) = RPMTAG_VERSION \<or>
         Tag (Info e) = RPMTAG_RELEASE \<or> Tag (Info e) = RPMTAG_ARCH
      then Some (StringValue (parseString (Data e)))
      else if Tag (Info e) = RPMTAG_SOURCERPM \<or> Tag (Info e) = RPMTAG_LICENSE \<or>
              Tag (Info e) = RPMTAG_VENDOR
      then Some (StringValue (if parseString (Data e) = ''(none)'' then []
                              else parseString (Data e)))
      else if Tag (Info e) = RPMTAG_EPOCH \<or> Tag (Info e) = RPMTAG_SIZE
      then (case parseInt32 (Data e) of Inl err \<Rightarrow> None | Inr v \<Rightarrow> Some (IntValue v))
      else None)"

section \<open>Properties of the primitive decoders\<close>

lemmas tag_defs =
  RPMTAG_NAME_def RPMTAG_VERSION_def RPMTAG_RELEASE_def RPMTAG_EPOCH_def RPMTAG_ARCH_def
  RPMTAG_SOURCERPM_def RPMTAG_SIZE_def RPMTAG_LICENSE_def RPMTAG_VENDOR_def
  RPMTAG_DIRINDEXES_def RPMTAG_BASENAMES_def RPMTAG_DIRNAMES_def RPMTAG_FILESIZES_def
  RPMTAG_FILEMODES_def RPMTAG_FILEDIGESTS_def


subsection \<open>\<open>parseString\<close>: trailing null bytes\<close>

text \<open>The loop of \<open>trimRightByte\<close> drops the longest suffix made of the byte \<open>c\<close>.\<close>

lemma trimRightByte_dropWhile:
  "trimRightByte s c = rev (dropWhile (\<lambda>x. x = c) (rev s))"
proof (induction s c rule: trimRightByte.induct)
  case (1 s c)
  show ?case
  proof (cases "s \<noteq> [] \<and> last s = c")
    case True
    then have s: "s = butlast s @ [c]" by (metis append_butlast_last_id)
    have "trimRightByte s c = trimRightByte (butlast s) c"
      using True by (subst trimRightByte.simps) simp
    also have "\<dots> = rev (dropWhile (\<lambda>x. x = c) (rev (butlast s)))"
      using 1 True by simp
    also have "\<dots> = rev (dropWhile (\<lambda>x. x = c) (rev (butlast s @ [c])))"
      by simp
    finally show ?thesis using s by simp
  next
    case False
    then have "trimRightByte s c = s" by (subst trimRightByte.simps) auto
    moreover have "dropWhile (\<lambda>x. x = c) (rev s) = rev s"
      using False by (cases s rule: rev_cases) auto
    ultimately show ?thesis by simp
  qed
qed

lemma dropWhile_replicate_append:
  "dropWhile (\<lambda>x. x = c) (replicate n c @ ys) = dropWhile (\<lambda>x. x = c) ys"
  by (induction n) simp_all

lemma trimRightByte_padded:
  "trimRightByte (s @ replicate n c) c = trimRightByte s c"
  by (simp add: trimRightByte_dropWhile dropWhile_replicate_append)

lemma trimRightByte_idem:
  "trimRightByte (trimRightByte s c) c = trimRightByte s c"
  by (simp add: trimRightByte_dropWhile)

lemma trimRightByte_suffix:
  "s = trimRightByte s c @ replicate (length (takeWhile (\<lambda>x. x = c) (rev s))) c"
proof -
  let ?P = "\<lambda>x. x = c"
  have tw: "takeWhile ?P (rev s) = replicate (length (takeWhile ?P (rev s))) c"
    by (rule replicate_eqI) (auto dest: set_takeWhileD)
  have "rev s = takeWhile ?P (rev s) @ dropWhile ?P (rev s)" by simp
  then have "s = rev (dropWhile ?P (rev s)) @ rev (takeWhile ?P (rev s))"
    by (metis rev_append rev_rev_ident)
  also have "rev (takeWhile ?P (rev s)) = replicate (length (takeWhile ?P (rev s))) c"
    using tw by (metis rev_replicate)
  finally show ?thesis by (simp add: trimRightByte_dropWhile)
qed

lemma trimRightByte_last:
  "trimRightByte s c = [] \<or> last (trimRightByte s c) \<noteq> c"
proof (cases "dropWhile (\<lambda>x. x = c) (rev s)")
  case Nil
  then show ?thesis by (simp add: trimRightByte_dropWhile)
next
  case (Cons y ys)
  then have "y \<noteq> c" using hd_dropWhile[of "\<lambda>x. x = c" "rev s"] by simp
  then show ?thesis using Cons by (simp add: trimRightByte_dropWhile)
qed

text \<open>
  Claim C8. \<open>parseString\<close> strips all trailing null bytes and only those: the input is the
  result followed by null bytes only (so every other byte, embedded and leading nulls
  included, is kept in place), and the result does not end in a null byte. Hence padding
  the decoded string with any number of null bytes and decoding again gives the same
  string.
\<close>

theorem parseString_roundtrip:
  "parseString (parseString data @ replicate n NUL) = parseString data \<and>
   (\<exists>k. data = parseString data @ replicate k NUL) \<and>
   (parseString data = [] \<or> last (parseString data) \<noteq> NUL)"
  unfolding parseString_def
  using trimRightByte_suffix[of data NUL] trimRightByte_last[of data NUL]
  by (auto simp add: trimRightByte_padded trimRightByte_idem)

theorem parseString_roundtrip_witness:
  "parseString (parseString [NUL, CHR ''a'', NUL, CHR ''b'', NUL, NUL] @ replicate 3 NUL)
     = [NUL, CHR ''a'', NUL, CHR ''b''] \<and>
   [NUL, CHR ''a'', NUL, CHR ''b'', NUL, NUL] = [NUL, CHR ''a'', NUL, CHR ''b''] @ replicate 2 NUL \<and>
   last (parseString [NUL, CHR ''a'', NUL, CHR ''b'', NUL, NUL]) \<noteq> NUL"
proof -
  have e: "parseString [NUL, CHR ''a'', NUL, CHR ''b'', NUL, NUL] = [NUL, CHR ''a'', NUL, CHR ''b'']"
    by code_simp
  have n: "CHR ''b'' \<noteq> NUL" by (simp add: NUL_def)
  from parseString_roundtrip[of "[NUL, CHR ''a'', NUL, CHR ''b'', NUL, NUL]" 3]
  show ?thesis unfolding e using n by (simp add: numeral_2_eq_2)
qed

subsection \<open>\<open>parseInt32Array\<close>: element count, values, failure\<close>

text \<open>
  \<open>binary.BigEndian.Uint32\<close> written with shifts and bitwise or is the number whose
  base-256 digits are the four bytes, most significant first.
\<close>

lemma and_push_bit_small:
  fixes a b :: nat
  assumes "a < 2 ^ m"
  shows "a AND push_bit m b = 0"
proof (rule bit_eqI)
  fix n
  have "take_bit m a = a" using assms by (rule take_bit_nat_eq_self)
  then have "bit a n \<Longrightarrow> n < m"
    by (metis bit_take_bit_iff)
  then show "bit (a AND push_bit m b) n = bit (0::nat) n"
    by (auto simp add: bit_simps)
qed

lemma or_push_bit_small:
  fixes a b :: nat
  assumes "a < 2 ^ m"
  shows "a OR push_bit m b = a + 2 ^ m * b"
  using disjunctive_add_eq_or[OF and_push_bit_small[OF assms, of b]]
  by (simp add: push_bit_eq_mult mult.commute)

lemma of_char_word: "(of_char c :: 'a::len word) = word_of_nat (of_char c)"
  by (simp add: of_nat_of_char)

lemma bigEndianUint32_value:
  "bigEndianUint32 b =
     word_of_nat (16777216 * of_char (b ! 0) + 65536 * of_char (b ! 1) +
                  256 * of_char (b ! 2) + of_char (b ! 3))"
proof -
  define b0 b1 b2 b3 :: nat where "b0 = of_char (b ! 0)" and "b1 = of_char (b ! 1)"
    and "b2 = of_char (b ! 2)" and "b3 = of_char (b ! 3)"
  have lt: "b0 < 256" "b1 < 256" "b2 < 256" "b3 < 256"
    by (simp_all add: b0_def b1_def b2_def b3_def)
  have "bigEndianUint32 b =
        word_of_nat (b3 OR push_bit 8 b2 OR push_bit 16 b1 OR push_bit 24 b0)"
    unfolding bigEndianUint32_def b0_def b1_def b2_def b3_def
    by (simp add: of_char_word[where 'a=32] of_nat_or_eq of_nat_push_bit del: of_nat_of_char)
  also have "b3 OR push_bit 8 b2 OR push_bit 16 b1 OR push_bit 24 b0 =
             b3 OR push_bit 8 (b2 OR push_bit 8 (b1 OR push_bit 8 b0))"
    by (simp add: push_bit_or push_bit_push_bit)
  also have "\<dots> = b3 + 2 ^ 8 * (b2 + 2 ^ 8 * (b1 + 2 ^ 8 * b0))"
    using lt by (simp add: or_push_bit_small)
  finally show ?thesis
    by (simp add: b0_def b1_def b2_def b3_def algebra_simps)
qed

lemma length_decodeInt32s: "length (decodeInt32s n buf) = n"
  by (induction n arbitrary: buf) simp_all

lemma nth_decodeInt32s:
  "k < n \<Longrightarrow> decodeInt32s n buf ! k = bigEndianUint32 (drop (4 * k) buf)"
proof (induction n arbitrary: buf k)
  case 0
  then show ?case by simp
next
  case (Suc n)
  show ?case
  proof (cases k)
    case 0
    then show ?thesis by simp
  next
    case (Suc j)
    with Suc.prems have "j < n" by simp
    from Suc.IH[OF this, of "drop 4 buf"] Suc show ?thesis
      by (simp add: add.commute)
  qed
qed

lemma sdiv_const:
  "0 < c \<Longrightarrow> (a::int) sdiv c = (if 0 \<le> a then a div c else - ((- a) div c))"
  by (simp add: signed_divide_int_def sgn_if)

lemma readFull_Inl_iff: "(\<exists>err. readFull data n = Inl err) \<longleftrightarrow> length data < n"
  by (auto simp add: readFull_def)

lemma maxAlloc_nonneg: "0 \<le> maxAlloc"
  by (simp add: maxAlloc_def)

lemma parseInt32Array_unfold:
  "parseInt32Array data arraySize =
     (if arraySize sdiv 4 < 0 \<or> maxAlloc < 4 * (arraySize sdiv 4)
      then Panic MakeSliceLenOutOfRange
      else case readFull data (4 * nat (arraySize sdiv 4)) of
             Inl err \<Rightarrow> Return (Inl (Errorf ''failed to read binary'' err))
           | Inr buf \<Rightarrow> Return (Inr (decodeInt32s (nat (arraySize sdiv 4)) buf)))"
  by (simp add: parseInt32Array_def sizeOfInt32_def Let_def)

lemma makeslice_int32_panics_iff:
  "arraySize sdiv 4 < 0 \<or> maxAlloc < 4 * (arraySize sdiv 4) \<longleftrightarrow>
     arraySize \<le> - 4 \<or> maxAlloc < 4 * (arraySize div 4)"
proof (cases "0 \<le> arraySize")
  case True
  then have "arraySize sdiv 4 = arraySize div 4" by (simp add: sdiv_const)
  moreover have "0 \<le> arraySize div 4" using True by simp
  ultimately show ?thesis using True by auto
next
  case False
  then have s: "arraySize sdiv 4 = - ((- arraySize) div 4)" by (simp add: sdiv_const)
  note m = maxAlloc_nonneg
  have "arraySize div 4 < 0" using False by simp
  then have r: "\<not> maxAlloc < 4 * (arraySize div 4)" using maxAlloc_nonneg by linarith
  have p: "0 \<le> (- arraySize) div 4" using False by simp
  show ?thesis
  proof (cases "arraySize \<le> - 4")
    case True
    then have "4 \<le> - arraySize" by simp
    then have "1 \<le> (- arraySize) div 4" by simp
    then show ?thesis using True s by simp
  next
    case False
    with \<open>\<not> 0 \<le> arraySize\<close> have "(- arraySize) div 4 = 0" by simp
    then show ?thesis using False s r m by simp
  qed
qed

lemma parseInt32Array_panic_iff:
  "parseInt32Array data arraySize = Panic MakeSliceLenOutOfRange \<longleftrightarrow>
     arraySize \<le> - 4 \<or> maxAlloc < 4 * (arraySize div 4)"
proof -
  have "parseInt32Array data arraySize = Panic MakeSliceLenOutOfRange \<longleftrightarrow>
        arraySize sdiv 4 < 0 \<or> maxAlloc < 4 * (arraySize sdiv 4)"
    by (simp add: parseInt32Array_unfold split: sum.splits)
  then show ?thesis by (simp only: makeslice_int32_panics_iff)
qed

lemma parseInt32Array_error_iff:
  "(\<exists>err. parseInt32Array data arraySize = Return (Inl err)) \<longleftrightarrow>
     int (length data) < 4 * (arraySize div 4) \<and> 4 * (arraySize div 4) \<le> maxAlloc"
proof (cases "arraySize \<le> - 4 \<or> maxAlloc < 4 * (arraySize div 4)")
  case True
  then have "parseInt32Array data arraySize = Panic MakeSliceLenOutOfRange"
    by (simp only: parseInt32Array_panic_iff)
  moreover have "\<not> (int (length data) < 4 * (arraySize div 4) \<and>
                     4 * (arraySize div 4) \<le> maxAlloc)"
  proof (cases "arraySize \<le> - 4")
    case True
    then have "arraySize div 4 < 0" by simp
    then show ?thesis by simp
  next
    case False
    with \<open>arraySize \<le> - 4 \<or> maxAlloc < 4 * (arraySize div 4)\<close> show ?thesis by simp
  qed
  ultimately show ?thesis by simp
next
  case False
  then have np: "\<not> (arraySize sdiv 4 < 0 \<or> maxAlloc < 4 * (arraySize sdiv 4))"
    by (simp only: makeslice_int32_panics_iff not_False_eq_True)
  have "(\<exists>err. parseInt32Array data arraySize = Return (Inl err)) \<longleftrightarrow>
        (\<exists>err. readFull data (4 * nat (arraySize sdiv 4)) = Inl err)"
    using np by (auto simp add: parseInt32Array_unfold split: sum.splits)
  also have "\<dots> \<longleftrightarrow> length data < 4 * nat (arraySize sdiv 4)"
    by (rule readFull_Inl_iff)
  also have "\<dots> \<longleftrightarrow> int (length data) < 4 * (arraySize div 4)"
  proof (cases "0 \<le> arraySize")
    case True
    then have "arraySize sdiv 4 = arraySize div 4" by (simp add: sdiv_const)
    moreover have "0 \<le> arraySize div 4" using True by simp
    ultimately show ?thesis by simp linarith
  next
    case f: False
    with False have "(- arraySize) div 4 = 0" by simp
    with f have "arraySize sdiv 4 = 0" by (simp add: sdiv_const)
    moreover have "arraySize div 4 < 0" using f by simp
    ultimately show ?thesis by simp
  qed
  finally show ?thesis using False by auto
qed

lemma parseInt32Array_enough:
  assumes "0 \<le> arraySize" and "4 * nat (arraySize div 4) \<le> length data"
    and "4 * (arraySize div 4) \<le> maxAlloc"
  shows "parseInt32Array data arraySize =
           Return (Inr (decodeInt32s (nat (arraySize div 4)) (take (4 * nat (arraySize div 4)) data)))"
proof -
  have s: "arraySize sdiv 4 = arraySize div 4" using assms(1) by (simp add: sdiv_const)
  have n: "0 \<le> arraySize div 4" using assms(1) by simp
  have "\<not> maxAlloc < 4 * (arraySize div 4)" using assms(3) by linarith
  then show ?thesis using assms(2) n
    by (simp add: parseInt32Array_unfold s readFull_def)
qed

lemma parseInt32Array_error_kind:
  "parseInt32Array data arraySize = Return (Inl err) \<Longrightarrow> isDecodeError err"
  by (auto simp add: parseInt32Array_def Let_def readFull_def isDecodeError_def
      split: if_splits sum.splits)

text \<open>
  Claim C7, as amended. For a buffer \<open>data\<close> whose length is the declared byte length (and,
  being a slice, within \<open>maxAlloc\<close>), \<open>parseInt32Array\<close> returns, without error, exactly
  \<open>\<lfloor>byteLength / 4\<rfloor>\<close> elements, the \<open>k\<close>-th being the big-endian value of the bytes
  \<open>4k .. 4k+3\<close> (as an \<open>int32\<close> word); trailing bytes that do not fill an element are
  ignored. For any buffer and declared length, an error is returned exactly when the
  buffer is shorter than \<open>4 * \<lfloor>byteLength / 4\<rfloor>\<close> bytes and that size is within
  \<open>maxAlloc\<close>, and every error returned is a decode error; exactly when that size exceeds
  \<open>maxAlloc\<close>, or the declared length is \<open>-4\<close> or less, \<open>make\<close> panics and nothing is
  returned. The counterexample is an empty buffer with a declared length of \<open>2^62\<close>: the
  buffer is shorter than required, and the function panics instead of failing with a
  decode error.
\<close>

theorem parseInt32Array_count:
  "(arraySize = int (length data) \<and> int (length data) \<le> maxAlloc \<longrightarrow>
      (\<exists>vs. parseInt32Array data arraySize = Return (Inr vs) \<and>
            int (length vs) = arraySize div 4 \<and>
            (\<forall>k < length vs.
               vs ! k = word_of_nat (16777216 * of_char (data ! (4 * k)) +
                                    65536 * of_char (data ! (4 * k + 1)) +
                                    256 * of_char (data ! (4 * k + 2)) +
                                    of_char (data ! (4 * k + 3)))))) \<and>
   ((\<exists>err. parseInt32Array data arraySize = Return (Inl err)) \<longleftrightarrow>
      int (length data) < 4 * (arraySize div 4) \<and> 4 * (arraySize div 4) \<le> maxAlloc) \<and>
   (parseInt32Array data arraySize = Panic MakeSliceLenOutOfRange \<longleftrightarrow>
      arraySize \<le> - 4 \<or> maxAlloc < 4 * (arraySize div 4)) \<and>
   (\<forall>err. parseInt32Array data arraySize = Return (Inl err) \<longrightarrow> isDecodeError err)"
proof (intro conjI impI allI)
  assume a: "arraySize = int (length data) \<and> int (length data) \<le> maxAlloc"
  let ?n = "nat (arraySize div 4)"
  let ?vs = "decodeInt32s ?n (take (4 * ?n) data)"
  have le: "4 * ?n \<le> length data" using a by simp
  have "4 * (arraySize div 4) \<le> arraySize" using a by simp
  then have lm: "4 * (arraySize div 4) \<le> maxAlloc" using a by linarith
  have r: "parseInt32Array data arraySize = Return (Inr ?vs)"
    using a le lm by (intro parseInt32Array_enough) simp_all
  have l: "int (length ?vs) = arraySize div 4"
    using a by (simp add: length_decodeInt32s)
  have e: "?vs ! k = word_of_nat (16777216 * of_char (data ! (4 * k)) +
                                    65536 * of_char (data ! (4 * k + 1)) +
                                    256 * of_char (data ! (4 * k + 2)) +
                                    of_char (data ! (4 * k + 3)))" if "k < length ?vs" for k
  proof -
    from that have k: "k < ?n" by (simp add: length_decodeInt32s)
    then have b: "4 * k + 3 < 4 * ?n" by simp
    then have b': "4 * k + 3 < length data" using le by simp
    have "?vs ! k = bigEndianUint32 (drop (4 * k) (take (4 * ?n) data))"
      using k by (rule nth_decodeInt32s)
    also have "\<dots> = word_of_nat (16777216 * of_char (data ! (4 * k)) +
                                    65536 * of_char (data ! (4 * k + 1)) +
                                    256 * of_char (data ! (4 * k + 2)) +
                                    of_char (data ! (4 * k + 3)))"
      using b b' by (simp add: bigEndianUint32_value)
    finally show ?thesis .
  qed
  from r l e show "\<exists>vs. parseInt32Array data arraySize = Return (Inr vs) \<and>
            int (length vs) = arraySize div 4 \<and>
            (\<forall>k < length vs.
               vs ! k = word_of_nat (16777216 * of_char (data ! (4 * k)) +
                                    65536 * of_char (data ! (4 * k + 1)) +
                                    256 * of_char (data ! (4 * k + 2)) +
                                    of_char (data ! (4 * k + 3))))"
    by blast
next
  show "(\<exists>err. parseInt32Array data arraySize = Return (Inl err)) \<longleftrightarrow>
      int (length data) < 4 * (arraySize div 4) \<and> 4 * (arraySize div 4) \<le> maxAlloc"
    by (rule parseInt32Array_error_iff)
next
  show "parseInt32Array data arraySize = Panic MakeSliceLenOutOfRange \<longleftrightarrow>
      arraySize \<le> - 4 \<or> maxAlloc < 4 * (arraySize div 4)"
    by (rule parseInt32Array_panic_iff)
next
  fix err assume "parseInt32Array data arraySize = Return (Inl err)"
  then show "isDecodeError err" by (rule parseInt32Array_error_kind)
qed

theorem parseInt32Array_count_witness:
  "(\<exists>vs. parseInt32Array [CHR 0x00, CHR 0x00, CHR 0x01, CHR 0x02, CHR 0xFF] 5 = Return (Inr vs) \<and>
         length vs = 1 \<and> vs ! 0 = 258) \<and>
   \<not> (\<exists>err. parseInt32Array [CHR 0x00, CHR 0x00, CHR 0x01, CHR 0x02, CHR 0xFF] 5 = Return (Inl err)) \<and>
   (\<exists>err. parseInt32Array [CHR 0x00, CHR 0x00, CHR 0x01, CHR 0x02, CHR 0xFF] 8 = Return (Inl err) \<and>
          isDecodeError err) \<and>
   parseInt32Array [CHR 0x00, CHR 0x00, CHR 0x01, CHR 0x02, CHR 0xFF] (- 8) =
     Panic MakeSliceLenOutOfRange"
proof -
  let ?d = "[CHR 0x00, CHR 0x00, CHR 0x01, CHR 0x02, CHR 0xFF]"
  have m: "int (length ?d) \<le> maxAlloc" by (simp add: maxAlloc_def)
  from parseInt32Array_count[of 5 ?d] m
  obtain vs where "parseInt32Array ?d 5 = Return (Inr vs)" and "int (length vs) = 5 div 4"
    and "\<forall>k < length vs. vs ! k = word_of_nat (16777216 * of_char (?d ! (4 * k)) +
                                    65536 * of_char (?d ! (4 * k + 1)) +
                                    256 * of_char (?d ! (4 * k + 2)) +
                                    of_char (?d ! (4 * k + 3)))"
    by auto
  then have a: "\<exists>vs. parseInt32Array ?d 5 = Return (Inr vs) \<and> length vs = 1 \<and> vs ! 0 = 258"
    by auto
  have b: "\<not> (\<exists>err. parseInt32Array ?d 5 = Return (Inl err))"
    using parseInt32Array_count[of 5 ?d] by simp
  have c: "\<exists>err. parseInt32Array ?d 8 = Return (Inl err) \<and> isDecodeError err"
    using parseInt32Array_count[of 8 ?d] by (auto simp add: maxAlloc_def)
  have d: "parseInt32Array ?d (- 8) = Panic MakeSliceLenOutOfRange"
    using parseInt32Array_count[of "- 8" ?d] by simp
  from a b c d show ?thesis by blast
qed

theorem parseInt32Array_count_counterexample:
  "int (length ([] :: bytes)) < 4 * (4611686018427387904 div 4) \<and>
   parseInt32Array [] 4611686018427387904 = Panic MakeSliceLenOutOfRange"
  by (simp add: parseInt32Array_unfold sdiv_const maxAlloc_def)


lemma parseInt32Array_decodes:
  assumes "0 \<le> arraySize sdiv 4" and "4 * (arraySize sdiv 4) \<le> maxAlloc"
    and "4 * nat (arraySize sdiv 4) \<le> length data"
  shows "\<exists>vs. parseInt32Array data arraySize = Return (Inr vs)"
proof -
  have "\<not> maxAlloc < 4 * (arraySize sdiv 4)" using assms(2) by linarith
  then show ?thesis using assms(1,3)
    by (simp add: parseInt32Array_def sizeOfInt32_def Let_def readFull_def)
qed

lemma parseUInt16Array_decodes:
  assumes "0 \<le> arraySize sdiv 2" and "2 * (arraySize sdiv 2) \<le> maxAlloc"
    and "2 * nat (arraySize sdiv 2) \<le> length data"
  shows "\<exists>vs. parseUInt16Array data arraySize = Return (Inr vs)"
proof -
  have "\<not> maxAlloc < 2 * (arraySize sdiv 2)" using assms(2) by linarith
  then show ?thesis using assms(1,3)
    by (simp add: parseUInt16Array_def sizeOfUInt16_def Let_def readFull_def)
qed

lemma parseInt32_error_kind:
  "parseInt32 data = Inl err \<Longrightarrow> isDecodeError err"
  by (auto simp add: parseInt32_def readFull_def isDecodeError_def split: if_splits)

lemma parseUInt16Array_error_kind:
  "parseUInt16Array data arraySize = Return (Inl err) \<Longrightarrow> isDecodeError err"
  by (auto simp add: parseUInt16Array_def Let_def readFull_def isDecodeError_def
      split: if_splits sum.splits)

section \<open>The two \<open>switch\<close> statements, case by case\<close>

text \<open>
  The tag constants are pairwise distinct, so each \<open>switch\<close> reduces to the one \<open>case\<close>
  of the entry's tag. The lemmas of this section are the only ones that unfold the two
  \<open>switch\<close> definitions.
\<close>

lemma scalarTag_cases:
  assumes "scalarTag tag"
  obtains "tag = RPMTAG_NAME" | "tag = RPMTAG_EPOCH" | "tag = RPMTAG_VERSION"
    | "tag = RPMTAG_RELEASE" | "tag = RPMTAG_ARCH" | "tag = RPMTAG_SOURCERPM"
    | "tag = RPMTAG_LICENSE" | "tag = RPMTAG_VENDOR" | "tag = RPMTAG_SIZE"
  using assms unfolding scalarTag_def by blast

lemma fileTag_cases:
  assumes "fileTag tag"
  obtains "tag = RPMTAG_FILESIZES" | "tag = RPMTAG_FILEDIGESTS" | "tag = RPMTAG_FILEMODES"
    | "tag = RPMTAG_BASENAMES" | "tag = RPMTAG_DIRNAMES" | "tag = RPMTAG_DIRINDEXES"
  using assms unfolding fileTag_def by blast


lemma catalog_simps:
  "catalog RPMTAG_NAME = Some RPM_STRING_TYPE"
  "catalog RPMTAG_EPOCH = Some RPM_INT32_TYPE"
  "catalog RPMTAG_VERSION = Some RPM_STRING_TYPE"
  "catalog RPMTAG_RELEASE = Some RPM_STRING_TYPE"
  "catalog RPMTAG_ARCH = Some RPM_STRING_TYPE"
  "catalog RPMTAG_SOURCERPM = Some RPM_STRING_TYPE"
  "catalog RPMTAG_LICENSE = Some RPM_STRING_TYPE"
  "catalog RPMTAG_VENDOR = Some RPM_STRING_TYPE"
  "catalog RPMTAG_SIZE = Some RPM_INT32_TYPE"
  "catalog RPMTAG_FILESIZES = Some RPM_INT32_TYPE"
  "catalog RPMTAG_FILEDIGESTS = Some RPM_STRING_ARRAY_TYPE"
  "catalog RPMTAG_FILEMODES = Some RPM_INT16_TYPE"
  "catalog RPMTAG_BASENAMES = Some RPM_STRING_ARRAY_TYPE"
  "catalog RPMTAG_DIRNAMES = Some RPM_STRING_ARRAY_TYPE"
  "catalog RPMTAG_DIRINDEXES = Some RPM_INT32_TYPE"
  by (simp_all add: catalog_def tag_defs)



lemma invalidTagType_simps:
  "invalidTagType RPMTAG_NAME = New ''invalid tag name''"
  "invalidTagType RPMTAG_EPOCH = New ''invalid tag epoch''"
  "invalidTagType RPMTAG_VERSION = New ''invalid tag version''"
  "invalidTagType RPMTAG_RELEASE = New ''invalid tag release''"
  "invalidTagType RPMTAG_ARCH = New ''invalid tag arch''"
  "invalidTagType RPMTAG_SOURCERPM = New ''invalid tag sourcerpm''"
  "invalidTagType RPMTAG_LICENSE = New ''invalid tag license''"
  "invalidTagType RPMTAG_VENDOR = New ''invalid tag vendor''"
  "invalidTagType RPMTAG_SIZE = New ''invalid tag size''"
  "invalidTagType RPMTAG_FILESIZES = New ''invalid tag file-sizes''"
  "invalidTagType RPMTAG_FILEDIGESTS = New ''invalid tag file-digests''"
  "invalidTagType RPMTAG_FILEMODES = New ''invalid tag file-modes''"
  "invalidTagType RPMTAG_BASENAMES = New ''invalid tag basenames''"
  "invalidTagType RPMTAG_DIRNAMES = New ''invalid tag dir-names''"
  "invalidTagType RPMTAG_DIRINDEXES = New ''invalid tag dir-indexes''"
  by (simp_all add: invalidTagType_def tag_defs)

lemma isInvalidTagType_invalidTagType:
  "scalarTag tag \<or> fileTag tag \<Longrightarrow> isInvalidTagType (invalidTagType tag)"
  by (auto simp add: isInvalidTagType_def recognizedTags_def scalarTag_def fileTag_def
      invalidTagType_simps)

lemma isInvalidTagType_Errorf [simp]:
  "isInvalidTagType (Errorf msg err) = isInvalidTagType err"
  by (simp add: isInvalidTagType_def)

lemma isDecodeError_Errorf [simp]:
  "isDecodeError (Errorf msg err) = isDecodeError err"
  by (simp add: isDecodeError_def)

subsection \<open>The \<open>switch\<close> of \<open>newPackage\<close>\<close>

lemma newPackage_switch_NAME:
  "Tag (Info e) = RPMTAG_NAME \<Longrightarrow>
   newPackage_switch pkgInfo e =
     (if Type (Info e) \<noteq> RPM_STRING_TYPE then Inl (New ''invalid tag name'')
      else Inr (pkgInfo\<lparr>Name := parseString (Data e)\<rparr>))"
  by (simp add: newPackage_switch_def)

lemma newPackage_switch_EPOCH:
  "Tag (Info e) = RPMTAG_EPOCH \<Longrightarrow>
   newPackage_switch pkgInfo e =
     (if Type (Info e) \<noteq> RPM_INT32_TYPE then Inl (New ''invalid tag epoch'')
      else (case parseInt32 (Data e) of
              Inl err \<Rightarrow> Inl (Errorf ''failed to parse epoch'' err)
            | Inr v \<Rightarrow> Inr (pkgInfo\<lparr>Epoch := v\<rparr>)))"
  by (simp add: newPackage_switch_def tag_defs)

lemma newPackage_switch_VERSION:
  "Tag (Info e) = RPMTAG_VERSION \<Longrightarrow>
   newPackage_switch pkgInfo e =
     (if Type (Info e) \<noteq> RPM_STRING_TYPE then Inl (New ''invalid tag version'')
      else Inr (pkgInfo\<lparr>Version := parseString (Data e)\<rparr>))"
  by (simp add: newPackage_switch_def tag_defs)

lemma newPackage_switch_RELEASE:
  "Tag (Info e) = RPMTAG_RELEASE \<Longrightarrow>
   newPackage_switch pkgInfo e =
     (if Type (Info e) \<noteq> RPM_STRING_TYPE then Inl (New ''invalid tag release'')
      else Inr (pkgInfo\<lparr>Release := parseString (Data e)\<rparr>))"
  by (simp add: newPackage_switch_def tag_defs)

lemma newPackage_switch_ARCH:
  "Tag (Info e) = RPMTAG_ARCH \<Longrightarrow>
   newPackage_switch pkgInfo e =
     (if Type (Info e) \<noteq> RPM_STRING_TYPE then Inl (New ''invalid tag arch'')
      else Inr (pkgInfo\<lparr>Arch := parseString (Data e)\<rparr>))"
  by (simp add: newPackage_switch_def tag_defs)

lemma newPackage_switch_SOURCERPM:
  "Tag (Info e) = RPMTAG_SOURCERPM \<Longrightarrow>
   newPackage_switch pkgInfo e =
     (if Type (Info e) \<noteq> RPM_STRING_TYPE then Inl (New ''invalid tag sourcerpm'')
      else Inr (pkgInfo\<lparr>SourceRpm :=
                  if parseString (Data e) = ''(none)'' then [] else parseString (Data e)\<rparr>))"
  by (simp add: newPackage_switch_def tag_defs Let_def)

lemma newPackage_switch_LICENSE:
  "Tag (Info e) = RPMTAG_LICENSE \<Longrightarrow>
   newPackage_switch pkgInfo e =
     (if Type (Info e) \<noteq> RPM_STRING_TYPE then Inl (New ''invalid tag license'')
      else Inr (pkgInfo\<lparr>License :=
                  if parseString (Data e) = ''(none)'' then [] else parseString (Data e)\<rparr>))"
  by (simp add: newPackage_switch_def tag_defs Let_def)

lemma newPackage_switch_VENDOR:
  "Tag (Info e) = RPMTAG_VENDOR \<Longrightarrow>
   newPackage_switch pkgInfo e =
     (if Type (Info e) \<noteq> RPM_STRING_TYPE then Inl (New ''invalid tag vendor'')
      else Inr (pkgInfo\<lparr>Vendor :=
                  if parseString (Data e) = ''(none)'' then [] else parseString (Data e)\<rparr>))"
  by (simp add: newPackage_switch_def tag_defs Let_def)

lemma newPackage_switch_SIZE:
  "Tag (Info e) = RPMTAG_SIZE \<Longrightarrow>
   newPackage_switch pkgInfo e =
     (if Type (Info e) \<noteq> RPM_INT32_TYPE then Inl (New ''invalid tag size'')
      else (case parseInt32 (Data e) of
              Inl err \<Rightarrow> Inl (Errorf ''failed to parse size'' err)
            | Inr v \<Rightarrow> Inr (pkgInfo\<lparr>PackageInfo.Size := v\<rparr>)))"
  by (simp add: newPackage_switch_def tag_defs)

lemma newPackage_switch_other:
  "\<not> scalarTag (Tag (Info e)) \<Longrightarrow> newPackage_switch pkgInfo e = Inr pkgInfo"
  by (simp add: scalarTag_def newPackage_switch_def)

lemmas newPackage_switch_cases =
  newPackage_switch_NAME newPackage_switch_EPOCH newPackage_switch_VERSION
  newPackage_switch_RELEASE newPackage_switch_ARCH newPackage_switch_SOURCERPM
  newPackage_switch_LICENSE newPackage_switch_VENDOR newPackage_switch_SIZE



lemma newPackage_switch_error_kind:
  assumes "newPackage_switch pkgInfo e = Inl err"
  shows "isInvalidTagType err \<or> isDecodeError err"
proof (cases "scalarTag (Tag (Info e))")
  case False
  with assms show ?thesis by (simp add: newPackage_switch_other)
next
  case True
  have inv: "isInvalidTagType (invalidTagType (Tag (Info e)))"
    using True by (simp add: isInvalidTagType_invalidTagType)
  from True show ?thesis
    by (cases rule: scalarTag_cases)
       (use assms inv in \<open>auto simp add: newPackage_switch_cases invalidTagType_simps
          split: if_splits sum.splits dest: parseInt32_error_kind\<close>)
qed

subsection \<open>The \<open>switch\<close> of \<open>getFileInfo\<close>\<close>

lemma getFileInfo_switch_FILESIZES:
  "Tag (Info e) = RPMTAG_FILESIZES \<Longrightarrow>
   getFileInfo_switch vars e =
     (if Type (Info e) \<noteq> RPM_INT32_TYPE then Return (Inl (New ''invalid tag file-sizes''))
      else (case parseInt32Array (Data e) (Length e) of
              Panic p \<Rightarrow> Panic p
            | Return (Inl err) \<Rightarrow> Return (Inl (Errorf ''failed to parse file-sizes'' err))
            | Return (Inr vs) \<Rightarrow> Return (Inr (vars\<lparr>allFileSizes := Some vs\<rparr>))))"
  by (simp add: getFileInfo_switch_def)

lemma getFileInfo_switch_FILEDIGESTS:
  "Tag (Info e) = RPMTAG_FILEDIGESTS \<Longrightarrow>
   getFileInfo_switch vars e =
     (if Type (Info e) \<noteq> RPM_STRING_ARRAY_TYPE then Return (Inl (New ''invalid tag file-digests''))
      else Return (Inr (vars\<lparr>allFileDigests := Some (parseStringArray (Data e))\<rparr>)))"
  by (simp add: getFileInfo_switch_def tag_defs)

lemma getFileInfo_switch_FILEMODES:
  "Tag (Info e) = RPMTAG_FILEMODES \<Longrightarrow>
   getFileInfo_switch vars e =
     (if Type (Info e) \<noteq> RPM_INT16_TYPE then Return (Inl (New ''invalid tag file-modes''))
      else (case parseUInt16Array (Data e) (Length e) of
              Panic p \<Rightarrow> Panic p
            | Return (Inl err) \<Rightarrow> Return (Inl (Errorf ''failed to parse file-modes'' err))
            | Return (Inr vs) \<Rightarrow> Return (Inr (vars\<lparr>allFileModes := Some vs\<rparr>))))"
  by (simp add: getFileInfo_switch_def tag_defs)

lemma getFileInfo_switch_BASENAMES:
  "Tag (Info e) = RPMTAG_BASENAMES \<Longrightarrow>
   getFileInfo_switch vars e =
     (if Type (Info e) \<noteq> RPM_STRING_ARRAY_TYPE then Return (Inl (New ''invalid tag basenames''))
      else Return (Inr (vars\<lparr>allBasenames := Some (parseStringArray (Data e))\<rparr>)))"
  by (simp add: getFileInfo_switch_def tag_defs)

lemma getFileInfo_switch_DIRNAMES:
  "Tag (Info e) = RPMTAG_DIRNAMES \<Longrightarrow>
   getFileInfo_switch vars e =
     (if Type (Info e) \<noteq> RPM_STRING_ARRAY_TYPE then Return (Inl (New ''invalid tag dir-names''))
      else Return (Inr (vars\<lparr>allDirs := Some (parseStringArray (Data e))\<rparr>)))"
  by (simp add: getFileInfo_switch_def tag_defs)

lemma getFileInfo_switch_DIRINDEXES:
  "Tag (Info e) = RPMTAG_DIRINDEXES \<Longrightarrow>
   getFileInfo_switch vars e =
     (if Type (Info e) \<noteq> RPM_INT32_TYPE then Return (Inl (New ''invalid tag dir-indexes''))
      else (case parseInt32Array (Data e) (Length e) of
              Panic p \<Rightarrow> Panic p
            | Return (Inl err) \<Rightarrow> Return (Inl (Errorf ''failed to parse dir-indexes'' err))
            | Return (Inr vs) \<Rightarrow> Return (Inr (vars\<lparr>allDirIndexes := Some vs\<rparr>))))"
  by (simp add: getFileInfo_switch_def tag_defs)

lemma getFileInfo_switch_other:
  "\<not> fileTag (Tag (Info e)) \<Longrightarrow> getFileInfo_switch vars e = Return (Inr vars)"
  by (simp add: fileTag_def getFileInfo_switch_def)

lemmas getFileInfo_switch_cases =
  getFileInfo_switch_FILESIZES getFileInfo_switch_FILEDIGESTS getFileInfo_switch_FILEMODES
  getFileInfo_switch_BASENAMES getFileInfo_switch_DIRNAMES getFileInfo_switch_DIRINDEXES


lemma getFileInfo_switch_wellFormed:
  assumes "wellFormed e"
  shows "\<exists>vars'. getFileInfo_switch vars e = Return (Inr vars')"
proof (cases "fileTag (Tag (Info e))")
  case False
  then show ?thesis by (simp add: getFileInfo_switch_other)
next
  case True
  then show ?thesis
  proof (cases rule: fileTag_cases)
    case 1
    then have "0 \<le> Length e sdiv 4 \<and> 4 * (Length e sdiv 4) \<le> maxAlloc \<and>
               4 * nat (Length e sdiv 4) \<le> length (Data e)"
      using assms by (simp add: wellFormed_def decodable_def tag_defs)
    then obtain vs where "parseInt32Array (Data e) (Length e) = Return (Inr vs)"
      using parseInt32Array_decodes by blast
    then show ?thesis using 1 assms
      by (simp add: wellFormed_def typeMismatch_def catalog_simps getFileInfo_switch_cases)
  next
    case 3
    then have "0 \<le> Length e sdiv 2 \<and> 2 * (Length e sdiv 2) \<le> maxAlloc \<and>
               2 * nat (Length e sdiv 2) \<le> length (Data e)"
      using assms by (simp add: wellFormed_def decodable_def tag_defs)
    then obtain vs where "parseUInt16Array (Data e) (Length e) = Return (Inr vs)"
      using parseUInt16Array_decodes by blast
    then show ?thesis using 3 assms
      by (simp add: wellFormed_def typeMismatch_def catalog_simps getFileInfo_switch_cases)
  next
    case 6
    then have "0 \<le> Length e sdiv 4 \<and> 4 * (Length e sdiv 4) \<le> maxAlloc \<and>
               4 * nat (Length e sdiv 4) \<le> length (Data e)"
      using assms by (simp add: wellFormed_def decodable_def tag_defs)
    then obtain vs where "parseInt32Array (Data e) (Length e) = Return (Inr vs)"
      using parseInt32Array_decodes by blast
    then show ?thesis using 6 assms
      by (simp add: wellFormed_def typeMismatch_def catalog_simps getFileInfo_switch_cases)
  qed (use assms in \<open>simp_all add: wellFormed_def typeMismatch_def catalog_simps
         getFileInfo_switch_cases\<close>)
qed

lemma getFileInfo_switch_error_kind:
  assumes "getFileInfo_switch vars e = Return (Inl err)"
  shows "isInvalidTagType err \<or> isDecodeError err"
proof (cases "fileTag (Tag (Info e))")
  case False
  with assms show ?thesis by (simp add: getFileInfo_switch_other)
next
  case True
  have inv: "isInvalidTagType (invalidTagType (Tag (Info e)))"
    using True by (simp add: isInvalidTagType_invalidTagType)
  from True show ?thesis
    by (cases rule: fileTag_cases)
       (use assms inv in \<open>auto simp add: getFileInfo_switch_cases invalidTagType_simps
          split: if_splits exec.splits sum.splits
          dest: parseInt32Array_error_kind parseUInt16Array_error_kind\<close>)
qed

lemma getFileInfo_switch_keeps_allDirs:
  assumes "getFileInfo_switch vars e = Return (Inr vars')"
    and "Tag (Info e) \<noteq> RPMTAG_DIRNAMES"
  shows "allDirs vars' = allDirs vars"
proof (cases "fileTag (Tag (Info e))")
  case False
  with assms show ?thesis by (simp add: getFileInfo_switch_other)
next
  case True
  then show ?thesis
    by (cases rule: fileTag_cases)
       (use assms in \<open>auto simp add: getFileInfo_switch_cases
          split: if_splits exec.splits sum.splits\<close>)
qed

lemma getFileInfo_switch_keeps_allDirIndexes:
  assumes "getFileInfo_switch vars e = Return (Inr vars')"
    and "Tag (Info e) \<noteq> RPMTAG_DIRINDEXES"
  shows "allDirIndexes vars' = allDirIndexes vars"
proof (cases "fileTag (Tag (Info e))")
  case False
  with assms show ?thesis by (simp add: getFileInfo_switch_other)
next
  case True
  then show ?thesis
    by (cases rule: fileTag_cases)
       (use assms in \<open>auto simp add: getFileInfo_switch_cases
          split: if_splits exec.splits sum.splits\<close>)
qed

section \<open>The two loops\<close>




lemma getFileInfo_loop_wellFormed:
  assumes "\<forall>x \<in> set xs. fileTag (Tag (Info x)) \<longrightarrow> wellFormed x"
  shows "\<exists>vars'. getFileInfo_loop vars xs = Return (Inr vars')"
  using assms
proof (induction xs arbitrary: vars)
  case Nil
  then show ?case by simp
next
  case (Cons x xs)
  have "\<exists>v. getFileInfo_switch vars x = Return (Inr v)"
  proof (cases "fileTag (Tag (Info x))")
    case True
    with Cons.prems have "wellFormed x" by simp
    then show ?thesis by (rule getFileInfo_switch_wellFormed)
  next
    case False
    then show ?thesis by (simp add: getFileInfo_switch_other)
  qed
  then obtain v where v: "getFileInfo_switch vars x = Return (Inr v)" ..
  from Cons.prems have "\<forall>x \<in> set xs. fileTag (Tag (Info x)) \<longrightarrow> wellFormed x" by simp
  from Cons.IH[OF this, of v] v show ?case by simp
qed

lemma newPackage_loop_error_kind:
  "newPackage_loop pkgInfo es = Inl err \<Longrightarrow> isInvalidTagType err \<or> isDecodeError err"
proof (induction es arbitrary: pkgInfo)
  case Nil
  then show ?case by simp
next
  case (Cons x xs)
  show ?case
  proof (cases "newPackage_switch pkgInfo x")
    case (Inl err')
    with Cons.prems have "err' = err" by simp
    with Inl show ?thesis using newPackage_switch_error_kind by blast
  next
    case (Inr p)
    with Cons.prems have "newPackage_loop p xs = Inl err" by simp
    then show ?thesis by (rule Cons.IH)
  qed
qed

lemma getFileInfo_loop_error_kind:
  "getFileInfo_loop vars es = Return (Inl err) \<Longrightarrow> isInvalidTagType err \<or> isDecodeError err"
proof (induction es arbitrary: vars)
  case Nil
  then show ?case by simp
next
  case (Cons x xs)
  show ?case
  proof (cases "getFileInfo_switch vars x")
    case (Panic p)
    with Cons.prems show ?thesis by simp
  next
    case (Return r)
    show ?thesis
    proof (cases r)
      case (Inl err')
      with Return Cons.prems have "err' = err" by simp
      with Inl Return show ?thesis using getFileInfo_switch_error_kind by blast
    next
      case (Inr v)
      with Return Cons.prems have "getFileInfo_loop v xs = Return (Inl err)" by simp
      then show ?thesis by (rule Cons.IH)
    qed
  qed
qed

lemma getFileInfo_loop_keeps_allDirs:
  assumes "getFileInfo_loop vars es = Return (Inr vars')"
    and "\<forall>x \<in> set es. Tag (Info x) \<noteq> RPMTAG_DIRNAMES"
  shows "allDirs vars' = allDirs vars"
  using assms
proof (induction es arbitrary: vars)
  case Nil
  then show ?case by simp
next
  case (Cons x xs)
  from Cons.prems(1) obtain v where v: "getFileInfo_switch vars x = Return (Inr v)"
    and r: "getFileInfo_loop v xs = Return (Inr vars')"
    by (auto split: exec.splits sum.splits)
  from Cons.prems(2) have "allDirs v = allDirs vars"
    using getFileInfo_switch_keeps_allDirs[OF v] by simp
  moreover from Cons.IH[OF r] Cons.prems(2) have "allDirs vars' = allDirs v" by simp
  ultimately show ?case by simp
qed

lemma getFileInfo_loop_keeps_allDirIndexes:
  assumes "getFileInfo_loop vars es = Return (Inr vars')"
    and "\<forall>x \<in> set es. Tag (Info x) \<noteq> RPMTAG_DIRINDEXES"
  shows "allDirIndexes vars' = allDirIndexes vars"
  using assms
proof (induction es arbitrary: vars)
  case Nil
  then show ?case by simp
next
  case (Cons x xs)
  from Cons.prems(1) obtain v where v: "getFileInfo_switch vars x = Return (Inr v)"
    and r: "getFileInfo_loop v xs = Return (Inr vars')"
    by (auto split: exec.splits sum.splits)
  from Cons.prems(2) have "allDirIndexes v = allDirIndexes vars"
    using getFileInfo_switch_keeps_allDirIndexes[OF v] by simp
  moreover from Cons.IH[OF r] Cons.prems(2) have "allDirIndexes vars' = allDirIndexes v" by simp
  ultimately show ?case by simp
qed



section \<open>The zipping stage of \<open>getFileInfo\<close>\<close>

text \<open>
  The loop over the base names either builds one record per base name, or panics at the
  first index whose directory look-up is out of bounds.
\<close>

lemma fileRecord_in_bounds:
  "dirIndexInBounds dirs dirIndexes i \<Longrightarrow>
   fileRecord vars dirs dirIndexes i file = Return (zippedRecord vars dirs dirIndexes i file)"
  by (simp add: fileRecord_def dirIndexInBounds_def zippedRecord_def Let_def)

lemma fileRecord_out_of_bounds:
  "\<not> dirIndexInBounds dirs dirIndexes i \<Longrightarrow>
   fileRecord vars dirs dirIndexes i file = Panic (indexPanic dirs dirIndexes i)"
  by (auto simp add: fileRecord_def dirIndexInBounds_def indexPanic_def Let_def)

lemma map_upt_Suc_shift:
  "map f [0..<Suc n] = f 0 # map (\<lambda>j. f (Suc j)) [0..<n]"
proof -
  have "[0..<Suc n] = 0 # map Suc [0..<n]"
    by (simp add: upt_conv_Cons map_Suc_upt del: upt_Suc)
  then show ?thesis by (simp add: comp_def del: upt_Suc)
qed

lemma getFileInfo_zip_in_bounds:
  assumes "\<forall>j < length bns. dirIndexInBounds dirs dirIndexes (i + j)"
  shows "getFileInfo_zip vars dirs dirIndexes i bns files =
           Return (files @ map (\<lambda>j. zippedRecord vars dirs dirIndexes (i + j) (bns ! j))
                              [0..<length bns])"
  using assms
proof (induction bns arbitrary: i files)
  case Nil
  then show ?case by simp
next
  case (Cons bn rest)
  let ?r = "zippedRecord vars dirs dirIndexes i bn"
  from Cons.prems have h0: "dirIndexInBounds dirs dirIndexes i" by force
  from Cons.prems have hs: "\<forall>j < length rest. dirIndexInBounds dirs dirIndexes (Suc i + j)"
    by force
  have "getFileInfo_zip vars dirs dirIndexes i (bn # rest) files =
        getFileInfo_zip vars dirs dirIndexes (Suc i) rest (files @ [?r])"
    using h0 by (simp add: fileRecord_in_bounds)
  also have "\<dots> = Return ((files @ [?r]) @
        map (\<lambda>j. zippedRecord vars dirs dirIndexes (Suc i + j) (rest ! j)) [0..<length rest])"
    by (rule Cons.IH[OF hs])
  also have "(files @ [?r]) @
        map (\<lambda>j. zippedRecord vars dirs dirIndexes (Suc i + j) (rest ! j)) [0..<length rest] =
        files @ map (\<lambda>j. zippedRecord vars dirs dirIndexes (i + j) ((bn # rest) ! j))
                  [0..<length (bn # rest)]"
    by (simp add: map_upt_Suc_shift del: upt_Suc)
  finally show ?case .
qed

lemma getFileInfo_zip_first_bad:
  assumes "j < length bns" and "\<not> dirIndexInBounds dirs dirIndexes (i + j)"
    and "\<forall>k < j. dirIndexInBounds dirs dirIndexes (i + k)"
  shows "getFileInfo_zip vars dirs dirIndexes i bns files = Panic (indexPanic dirs dirIndexes (i + j))"
  using assms
proof (induction bns arbitrary: i j files)
  case Nil
  then show ?case by simp
next
  case (Cons bn rest)
  show ?case
  proof (cases j)
    case 0
    with Cons.prems show ?thesis by (simp add: fileRecord_out_of_bounds)
  next
    case (Suc j')
    with Cons.prems have h0: "dirIndexInBounds dirs dirIndexes i" by force
    from Suc Cons.prems have a: "j' < length rest" by simp
    from Suc Cons.prems have b: "\<not> dirIndexInBounds dirs dirIndexes (Suc i + j')" by simp
    from Suc Cons.prems have c: "\<forall>k < j'. dirIndexInBounds dirs dirIndexes (Suc i + k)"
      by force
    from Cons.IH[OF a b c] h0 Suc show ?thesis by (simp add: fileRecord_in_bounds)
  qed
qed

lemma getFileInfo_zip_some_bad:
  assumes "j < length bns" and "\<not> dirIndexInBounds dirs dirIndexes j"
  shows "\<exists>m \<le> j. \<not> dirIndexInBounds dirs dirIndexes m \<and>
           (\<forall>k < m. dirIndexInBounds dirs dirIndexes k) \<and>
           getFileInfo_zip vars dirs dirIndexes 0 bns files = Panic (indexPanic dirs dirIndexes m)"
proof -
  define m where "m = (LEAST k. \<not> dirIndexInBounds dirs dirIndexes k)"
  have bad: "\<not> dirIndexInBounds dirs dirIndexes m"
    unfolding m_def using assms(2) by (rule LeastI)
  have le: "m \<le> j" unfolding m_def using assms(2) by (rule Least_le)
  have before: "\<forall>k < m. dirIndexInBounds dirs dirIndexes k"
    unfolding m_def using not_less_Least by blast
  have "getFileInfo_zip vars dirs dirIndexes 0 bns files = Panic (indexPanic dirs dirIndexes (0 + m))"
    by (rule getFileInfo_zip_first_bad) (use le assms(1) bad before in simp_all)
  with bad le before show ?thesis by auto
qed


lemma getFileInfo_collected:
  assumes "getFileInfo_loop nilFileArrays indexEntries = Return (Inr vars)"
    and "allDirs vars = Some dirs" and "allDirIndexes vars = Some dirIndexes"
  shows "getFileInfo indexEntries =
           (case getFileInfo_zip vars dirs dirIndexes 0
                   (case allBasenames vars of None \<Rightarrow> [] | Some bs \<Rightarrow> bs) [] of
              Panic p \<Rightarrow> Panic p
            | Return files \<Rightarrow> Return (files, None))"
  using assms by (simp add: getFileInfo_def)

lemma getFileInfo_panics:
  assumes "getFileInfo_loop nilFileArrays indexEntries = Return (Inr vars)"
    and "allDirs vars = Some dirs" and "allDirIndexes vars = Some dirIndexes"
    and "basenames = (case allBasenames vars of None \<Rightarrow> [] | Some bs \<Rightarrow> bs)"
    and "j < length basenames" and "\<not> dirIndexInBounds dirs dirIndexes j"
  shows "\<exists>m \<le> j. \<not> dirIndexInBounds dirs dirIndexes m \<and>
           (\<forall>k < m. dirIndexInBounds dirs dirIndexes k) \<and>
           getFileInfo indexEntries = Panic (indexPanic dirs dirIndexes m)"
proof -
  from getFileInfo_zip_some_bad[OF assms(5,6), of vars "[]"]
  obtain m where m: "m \<le> j" "\<not> dirIndexInBounds dirs dirIndexes m"
      "\<forall>k < m. dirIndexInBounds dirs dirIndexes k"
      "getFileInfo_zip vars dirs dirIndexes 0 basenames [] = Panic (indexPanic dirs dirIndexes m)"
    by blast
  have "getFileInfo indexEntries = Panic (indexPanic dirs dirIndexes m)"
    using getFileInfo_collected[OF assms(1-3)] assms(4) m(4) by simp
  with m show ?thesis by blast
qed

lemma getFileInfo_returns_iff:
  assumes "getFileInfo_loop nilFileArrays indexEntries = Return (Inr vars)"
    and "allDirs vars = Some dirs" and "allDirIndexes vars = Some dirIndexes"
    and "basenames = (case allBasenames vars of None \<Rightarrow> [] | Some bs \<Rightarrow> bs)"
  shows "(\<exists>r. getFileInfo indexEntries = Return r) \<longleftrightarrow>
           (\<forall>i < length basenames. dirIndexInBounds dirs dirIndexes i)"
proof
  assume "\<exists>r. getFileInfo indexEntries = Return r"
  then obtain r where r: "getFileInfo indexEntries = Return r" ..
  show "\<forall>i < length basenames. dirIndexInBounds dirs dirIndexes i"
  proof (intro allI impI, rule ccontr)
    fix i assume "i < length basenames" and "\<not> dirIndexInBounds dirs dirIndexes i"
    from getFileInfo_panics[OF assms this] r show False by auto
  qed
next
  assume a: "\<forall>i < length basenames. dirIndexInBounds dirs dirIndexes i"
  then have "\<forall>j < length basenames. dirIndexInBounds dirs dirIndexes (0 + j)" by simp
  from getFileInfo_zip_in_bounds[OF this, of vars "[]"]
  show "\<exists>r. getFileInfo indexEntries = Return r"
    using getFileInfo_collected[OF assms(1-3)] assms(4) by simp
qed

lemma getFileInfo_error:
  assumes "getFileInfo es = Return (files, Some err)"
  shows "files = [] \<and> getFileInfo_loop nilFileArrays es = Return (Inl err)"
  using assms
  by (auto simp add: getFileInfo_def split: exec.splits sum.splits option.splits)


lemma newPackage_after_scalars:
  "newPackage indexEntries =
     (case newPackage_loop emptyPackageInfo indexEntries of
        Inl err \<Rightarrow> Return (None, Some err)
      | Inr pkgInfo \<Rightarrow>
          (case getFileInfo indexEntries of
             Panic p \<Rightarrow> Panic p
           | Return (files, Some err) \<Rightarrow>
               Return (None, Some (Errorf ''failed to read package files'' err))
           | Return (files, None) \<Rightarrow> Return (Some (pkgInfo\<lparr>Files := files\<rparr>), None)))"
  by (simp add: newPackage_def)

lemma newPackage_success:
  assumes "newPackage es = Return (Some pkgInfo, err)"
  shows "err = None \<and>
         (\<exists>pkgInfo0 files. newPackage_loop emptyPackageInfo es = Inr pkgInfo0 \<and>
                           getFileInfo es = Return (files, None) \<and>
                           pkgInfo = pkgInfo0\<lparr>Files := files\<rparr>)"
  using assms
  by (auto simp add: newPackage_def split: exec.splits sum.splits option.splits)



text \<open>
  Claim C1, as amended. The source does not return an \<open>IndexOutOfRange\<close> error: it has no
  bounds check and no such error value. When the collection pass completes with both
  arrays present and some \<open>dirindexes[i]\<close> with \<open>i < len(basenames)\<close> lies outside
  \<open>dirnames\<close>, \<open>getFileInfo\<close> does not return at all: it panics with Go's run-time error
  "index out of range" (on \<open>allDirs\<close> with that very index when all earlier look-ups are in
  bounds), and \<open>newPackage\<close> panics with it unless its scalar pass has already returned an
  error. The counterexample is a sequence on which \<open>getFileInfo\<close> and \<open>newPackage\<close>
  panic instead of returning an error.
\<close>

theorem getFileInfo_dir_index_panics:
  assumes "getFileInfo_loop nilFileArrays indexEntries = Return (Inr vars)"
    and "allDirs vars = Some dirnames"
    and "allDirIndexes vars = Some dirindexes"
    and "basenames = (case allBasenames vars of None \<Rightarrow> [] | Some bs \<Rightarrow> bs)"
    and "i < length basenames" and "i < length dirindexes"
    and "\<not> (0 \<le> sint (dirindexes ! i) \<and> sint (dirindexes ! i) < int (length dirnames))"
  shows "\<exists>a k n. getFileInfo indexEntries = Panic (IndexOutOfRange a k n) \<and>
           newPackage indexEntries =
             (case newPackage_loop emptyPackageInfo indexEntries of
                Inl err \<Rightarrow> Return (None, Some err)
              | Inr pkgInfo \<Rightarrow> Panic (IndexOutOfRange a k n)) \<and>
           ((\<forall>j < i. 0 \<le> sint (dirindexes ! j) \<and> sint (dirindexes ! j) < int (length dirnames))
              \<longrightarrow> a = AllDirs \<and> k = sint (dirindexes ! i) \<and> n = length dirnames)"
proof -
  have bad: "\<not> dirIndexInBounds dirnames dirindexes i"
    using assms(7) by (simp add: dirIndexInBounds_def)
  from getFileInfo_panics[OF assms(1-5) bad]
  obtain m where m: "m \<le> i" "\<not> dirIndexInBounds dirnames dirindexes m"
    and g: "getFileInfo indexEntries = Panic (indexPanic dirnames dirindexes m)"
    by blast
  from m(1) assms(6) have ml: "m < length dirindexes" by simp
  then have ip: "indexPanic dirnames dirindexes m =
                   IndexOutOfRange AllDirs (sint (dirindexes ! m)) (length dirnames)"
    by (simp add: indexPanic_def)
  have first: "m = i"
    if "\<forall>j < i. 0 \<le> sint (dirindexes ! j) \<and> sint (dirindexes ! j) < int (length dirnames)"
  proof (rule ccontr)
    assume "m \<noteq> i"
    with m(1) have "m < i" by simp
    with that ml have "dirIndexInBounds dirnames dirindexes m"
      by (simp add: dirIndexInBounds_def)
    with m(2) show False by simp
  qed
  have n: "newPackage indexEntries =
             (case newPackage_loop emptyPackageInfo indexEntries of
                Inl err \<Rightarrow> Return (None, Some err)
              | Inr pkgInfo \<Rightarrow>
                  Panic (IndexOutOfRange AllDirs (sint (dirindexes ! m)) (length dirnames)))"
    using g ip by (simp add: newPackage_after_scalars split: sum.splits)
  show ?thesis
    using g ip n first by (intro exI[of _ AllDirs] exI[of _ "sint (dirindexes ! m)"]
        exI[of _ "length dirnames"]) auto
qed

theorem getFileInfo_dir_index_panics_witness:
  "getFileInfo
       [\<lparr>Info = \<lparr>Tag = RPMTAG_DIRNAMES, Type = RPM_STRING_ARRAY_TYPE\<rparr>, Length = 6,
          Data = ''/usr/'' @ [NUL]\<rparr>,
        \<lparr>Info = \<lparr>Tag = RPMTAG_DIRINDEXES, Type = RPM_INT32_TYPE\<rparr>, Length = 4,
          Data = [CHR 0x00, CHR 0x00, CHR 0x00, CHR 0x01]\<rparr>,
        \<lparr>Info = \<lparr>Tag = RPMTAG_BASENAMES, Type = RPM_STRING_ARRAY_TYPE\<rparr>, Length = 2,
          Data = [CHR ''a'', NUL]\<rparr>] = Panic (IndexOutOfRange AllDirs 1 (Suc 0))"
proof -
  let ?es = "[\<lparr>Info = \<lparr>Tag = RPMTAG_DIRNAMES, Type = RPM_STRING_ARRAY_TYPE\<rparr>, Length = 6,
          Data = ''/usr/'' @ [NUL]\<rparr>,
        \<lparr>Info = \<lparr>Tag = RPMTAG_DIRINDEXES, Type = RPM_INT32_TYPE\<rparr>, Length = 4,
          Data = [CHR 0x00, CHR 0x00, CHR 0x00, CHR 0x01]\<rparr>,
        \<lparr>Info = \<lparr>Tag = RPMTAG_BASENAMES, Type = RPM_STRING_ARRAY_TYPE\<rparr>, Length = 2,
          Data = [CHR ''a'', NUL]\<rparr>]"
  let ?vars = "\<lparr>allBasenames = Some [''a''], allDirs = Some [''/usr/''],
                allDirIndexes = Some [1], allFileDigests = None, allFileModes = None,
                allFileSizes = None\<rparr>"
  have c: "getFileInfo_loop nilFileArrays ?es = Return (Inr ?vars)"
    by code_simp
  from getFileInfo_dir_index_panics[OF c, where i = 0 and dirnames = "[''/usr/'']"
          and dirindexes = "[1]" and basenames = "[''a'']"]
  show ?thesis by auto
qed

theorem getFileInfo_dir_index_panics_counterexample:
  "getFileInfo
       [\<lparr>Info = \<lparr>Tag = RPMTAG_DIRNAMES, Type = RPM_STRING_ARRAY_TYPE\<rparr>, Length = 6,
          Data = ''/usr/'' @ [NUL]\<rparr>,
        \<lparr>Info = \<lparr>Tag = RPMTAG_DIRINDEXES, Type = RPM_INT32_TYPE\<rparr>, Length = 4,
          Data = [CHR 0x00, CHR 0x00, CHR 0x00, CHR 0x01]\<rparr>,
        \<lparr>Info = \<lparr>Tag = RPMTAG_BASENAMES, Type = RPM_STRING_ARRAY_TYPE\<rparr>, Length = 2,
          Data = [CHR ''a'', NUL]\<rparr>] = Panic (IndexOutOfRange AllDirs 1 1) \<and>
   newPackage
       [\<lparr>Info = \<lparr>Tag = RPMTAG_DIRNAMES, Type = RPM_STRING_ARRAY_TYPE\<rparr>, Length = 6,
          Data = ''/usr/'' @ [NUL]\<rparr>,
        \<lparr>Info = \<lparr>Tag = RPMTAG_DIRINDEXES, Type = RPM_INT32_TYPE\<rparr>, Length = 4,
          Data = [CHR 0x00, CHR 0x00, CHR 0x00, CHR 0x01]\<rparr>,
        \<lparr>Info = \<lparr>Tag = RPMTAG_BASENAMES, Type = RPM_STRING_ARRAY_TYPE\<rparr>, Length = 2,
          Data = [CHR ''a'', NUL]\<rparr>] = Panic (IndexOutOfRange AllDirs 1 1)"
  by code_simp

text \<open>
  Claim C5, as amended. \<open>getFileInfo\<close> checks no bound of \<open>allDirIndexes\<close>. When the
  collection pass completes with both arrays present and \<open>dirindexes\<close> is shorter than
  \<open>basenames\<close>, the zipping loop panics with "index out of range" at some index
  \<open>m \<le> len(dirindexes)\<close>, all earlier look-ups being in bounds: on \<open>allDirIndexes\<close> at
  \<open>m = len(dirindexes)\<close>, or already on \<open>allDirs\<close> at an \<open>m < len(dirindexes)\<close> whose
  directory index is outside \<open>dirnames\<close> (then \<open>allDirIndexes\<close> is never read out of
  range, which is what the counterexample shows). The function returns exactly when
  \<open>len(dirindexes) \<ge> len(basenames)\<close> and every directory index used is inside
  \<open>dirnames\<close>.
\<close>

theorem getFileInfo_short_dirindexes:
  assumes "getFileInfo_loop nilFileArrays indexEntries = Return (Inr vars)"
    and "allDirs vars = Some dirnames"
    and "allDirIndexes vars = Some dirindexes"
    and "basenames = (case allBasenames vars of None \<Rightarrow> [] | Some bs \<Rightarrow> bs)"
  shows "(length dirindexes < length basenames \<longrightarrow>
            (\<exists>m \<le> length dirindexes.
               (\<forall>k < m. 0 \<le> sint (dirindexes ! k) \<and> sint (dirindexes ! k) < int (length dirnames)) \<and>
               (if m = length dirindexes
                then getFileInfo indexEntries =
                       Panic (IndexOutOfRange AllDirIndexes (int m) (length dirindexes))
                else \<not> (0 \<le> sint (dirindexes ! m) \<and> sint (dirindexes ! m) < int (length dirnames)) \<and>
                     getFileInfo indexEntries =
                       Panic (IndexOutOfRange AllDirs (sint (dirindexes ! m)) (length dirnames))))) \<and>
         ((\<exists>r. getFileInfo indexEntries = Return r) \<longleftrightarrow>
            length basenames \<le> length dirindexes \<and>
            (\<forall>i < length basenames.
               0 \<le> sint (dirindexes ! i) \<and> sint (dirindexes ! i) < int (length dirnames)))"
proof (intro conjI impI)
  assume short: "length dirindexes < length basenames"
  have bad: "\<not> dirIndexInBounds dirnames dirindexes (length dirindexes)"
    by (simp add: dirIndexInBounds_def)
  from getFileInfo_panics[OF assms short bad]
  obtain m where m: "m \<le> length dirindexes" "\<not> dirIndexInBounds dirnames dirindexes m"
      "\<forall>k < m. dirIndexInBounds dirnames dirindexes k"
      "getFileInfo indexEntries = Panic (indexPanic dirnames dirindexes m)"
    by blast
  have "\<forall>k < m. 0 \<le> sint (dirindexes ! k) \<and> sint (dirindexes ! k) < int (length dirnames)"
    using m(3) by (simp add: dirIndexInBounds_def)
  moreover have "if m = length dirindexes
                then getFileInfo indexEntries =
                       Panic (IndexOutOfRange AllDirIndexes (int m) (length dirindexes))
                else \<not> (0 \<le> sint (dirindexes ! m) \<and> sint (dirindexes ! m) < int (length dirnames)) \<and>
                     getFileInfo indexEntries =
                       Panic (IndexOutOfRange AllDirs (sint (dirindexes ! m)) (length dirnames))"
    using m(1,2,4) by (auto simp add: indexPanic_def dirIndexInBounds_def)
  ultimately show "\<exists>m \<le> length dirindexes.
               (\<forall>k < m. 0 \<le> sint (dirindexes ! k) \<and> sint (dirindexes ! k) < int (length dirnames)) \<and>
               (if m = length dirindexes
                then getFileInfo indexEntries =
                       Panic (IndexOutOfRange AllDirIndexes (int m) (length dirindexes))
                else \<not> (0 \<le> sint (dirindexes ! m) \<and> sint (dirindexes ! m) < int (length dirnames)) \<and>
                     getFileInfo indexEntries =
                       Panic (IndexOutOfRange AllDirs (sint (dirindexes ! m)) (length dirnames)))"
    using m(1) by blast
next
  have "(\<forall>i < length basenames. dirIndexInBounds dirnames dirindexes i) \<longleftrightarrow>
        length basenames \<le> length dirindexes \<and>
            (\<forall>i < length basenames.
               0 \<le> sint (dirindexes ! i) \<and> sint (dirindexes ! i) < int (length dirnames))"
  proof
    assume a: "\<forall>i < length basenames. dirIndexInBounds dirnames dirindexes i"
    have "length basenames \<le> length dirindexes"
    proof (rule ccontr)
      assume "\<not> length basenames \<le> length dirindexes"
      then have "length dirindexes < length basenames" by simp
      with a have "dirIndexInBounds dirnames dirindexes (length dirindexes)" by blast
      then show False by (simp add: dirIndexInBounds_def)
    qed
    with a show "length basenames \<le> length dirindexes \<and>
            (\<forall>i < length basenames.
               0 \<le> sint (dirindexes ! i) \<and> sint (dirindexes ! i) < int (length dirnames))"
      by (simp add: dirIndexInBounds_def)
  next
    assume "length basenames \<le> length dirindexes \<and>
            (\<forall>i < length basenames.
               0 \<le> sint (dirindexes ! i) \<and> sint (dirindexes ! i) < int (length dirnames))"
    then show "\<forall>i < length basenames. dirIndexInBounds dirnames dirindexes i"
      by (simp add: dirIndexInBounds_def)
  qed
  then show "(\<exists>r. getFileInfo indexEntries = Return r) \<longleftrightarrow>
            length basenames \<le> length dirindexes \<and>
            (\<forall>i < length basenames.
               0 \<le> sint (dirindexes ! i) \<and> sint (dirindexes ! i) < int (length dirnames))"
    using getFileInfo_returns_iff[OF assms] by simp
qed

theorem getFileInfo_short_dirindexes_witness:
  "getFileInfo
       [\<lparr>Info = \<lparr>Tag = RPMTAG_DIRNAMES, Type = RPM_STRING_ARRAY_TYPE\<rparr>, Length = 2,
          Data = [CHR ''/'', NUL]\<rparr>,
        \<lparr>Info = \<lparr>Tag = RPMTAG_DIRINDEXES, Type = RPM_INT32_TYPE\<rparr>, Length = 4,
          Data = [CHR 0x00, CHR 0x00, CHR 0x00, CHR 0x00]\<rparr>,
        \<lparr>Info = \<lparr>Tag = RPMTAG_BASENAMES, Type = RPM_STRING_ARRAY_TYPE\<rparr>, Length = 4,
          Data = [CHR ''a'', NUL, CHR ''b'', NUL]\<rparr>] = Panic (IndexOutOfRange AllDirIndexes 1 1)"
proof -
  let ?es = "[\<lparr>Info = \<lparr>Tag = RPMTAG_DIRNAMES, Type = RPM_STRING_ARRAY_TYPE\<rparr>, Length = 2,
          Data = [CHR ''/'', NUL]\<rparr>,
        \<lparr>Info = \<lparr>Tag = RPMTAG_DIRINDEXES, Type = RPM_INT32_TYPE\<rparr>, Length = 4,
          Data = [CHR 0x00, CHR 0x00, CHR 0x00, CHR 0x00]\<rparr>,
        \<lparr>Info = \<lparr>Tag = RPMTAG_BASENAMES, Type = RPM_STRING_ARRAY_TYPE\<rparr>, Length = 4,
          Data = [CHR ''a'', NUL, CHR ''b'', NUL]\<rparr>]"
  let ?vars = "\<lparr>allBasenames = Some [''a'', ''b''], allDirs = Some [''/''],
                allDirIndexes = Some [0], allFileDigests = None, allFileModes = None,
                allFileSizes = None\<rparr>"
  have c: "getFileInfo_loop nilFileArrays ?es = Return (Inr ?vars)"
    by code_simp
  have short: "length [0 :: int32] < length [''a'', ''b'']" by simp
  from getFileInfo_short_dirindexes[OF c, where dirnames = "[''/'']" and dirindexes = "[0]"
      and basenames = "[''a'', ''b'']"]
  have "length [0 :: int32] < length [''a'', ''b''] \<longrightarrow>
        (\<exists>m \<le> length [0 :: int32].
           (\<forall>k < m. 0 \<le> sint ([0 :: int32] ! k) \<and> sint ([0 :: int32] ! k) < int (length [''/''])) \<and>
           (if m = length [0 :: int32]
            then getFileInfo ?es = Panic (IndexOutOfRange AllDirIndexes (int m) (length [0 :: int32]))
            else \<not> (0 \<le> sint ([0 :: int32] ! m) \<and> sint ([0 :: int32] ! m) < int (length [''/''])) \<and>
                 getFileInfo ?es =
                   Panic (IndexOutOfRange AllDirs (sint ([0 :: int32] ! m)) (length [''/'']))))"
    by simp
  with short obtain m where m: "m \<le> length [0 :: int32]"
    and r: "if m = length [0 :: int32]
            then getFileInfo ?es = Panic (IndexOutOfRange AllDirIndexes (int m) (length [0 :: int32]))
            else \<not> (0 \<le> sint ([0 :: int32] ! m) \<and> sint ([0 :: int32] ! m) < int (length [''/''])) \<and>
                 getFileInfo ?es =
                   Panic (IndexOutOfRange AllDirs (sint ([0 :: int32] ! m)) (length [''/'']))"
    by blast
  from m have "m = 0 \<or> m = 1" by auto
  then show ?thesis
  proof
    assume "m = 0"
    with r show ?thesis by simp
  next
    assume "m = 1"
    with r show ?thesis by simp
  qed
qed

theorem getFileInfo_short_dirindexes_counterexample:
  "getFileInfo_loop nilFileArrays
       [\<lparr>Info = \<lparr>Tag = RPMTAG_DIRNAMES, Type = RPM_STRING_ARRAY_TYPE\<rparr>, Length = 2,
          Data = [CHR ''/'', NUL]\<rparr>,
        \<lparr>Info = \<lparr>Tag = RPMTAG_DIRINDEXES, Type = RPM_INT32_TYPE\<rparr>, Length = 4,
          Data = [CHR 0x00, CHR 0x00, CHR 0x00, CHR 0x07]\<rparr>,
        \<lparr>Info = \<lparr>Tag = RPMTAG_BASENAMES, Type = RPM_STRING_ARRAY_TYPE\<rparr>, Length = 4,
          Data = [CHR ''a'', NUL, CHR ''b'', NUL]\<rparr>]
     = Return (Inr \<lparr>allBasenames = Some [''a'', ''b''], allDirs = Some [''/''],
                     allDirIndexes = Some [7], allFileDigests = None, allFileModes = None,
                     allFileSizes = None\<rparr>) \<and>
   getFileInfo
       [\<lparr>Info = \<lparr>Tag = RPMTAG_DIRNAMES, Type = RPM_STRING_ARRAY_TYPE\<rparr>, Length = 2,
          Data = [CHR ''/'', NUL]\<rparr>,
        \<lparr>Info = \<lparr>Tag = RPMTAG_DIRINDEXES, Type = RPM_INT32_TYPE\<rparr>, Length = 4,
          Data = [CHR 0x00, CHR 0x00, CHR 0x00, CHR 0x07]\<rparr>,
        \<lparr>Info = \<lparr>Tag = RPMTAG_BASENAMES, Type = RPM_STRING_ARRAY_TYPE\<rparr>, Length = 4,
          Data = [CHR ''a'', NUL, CHR ''b'', NUL]\<rparr>] = Panic (IndexOutOfRange AllDirs 7 1)"
  by code_simp

text \<open>
  Claim C4, as amended. For every entry sequence whose file-metadata entries (the six
  file tags) are all well-formed, and that has no \<open>DIRNAMES\<close> entry or no \<open>DIRINDEXES\<close>
  entry, \<open>getFileInfo\<close> returns an empty file list and no error, whatever \<open>BASENAMES\<close>
  holds. Without the proviso the claim fails: the collection pass runs first and returns
  its errors whether or not the structural arrays are present, as in the counterexample,
  where a mistyped \<open>FILESIZES\<close> entry follows a well-formed \<open>BASENAMES\<close> entry.
\<close>

theorem getFileInfo_without_dirs:
  assumes "\<forall>x \<in> set indexEntries. fileTag (Tag (Info x)) \<longrightarrow> wellFormed x"
    and "(\<forall>x \<in> set indexEntries. Tag (Info x) \<noteq> RPMTAG_DIRNAMES) \<or>
         (\<forall>x \<in> set indexEntries. Tag (Info x) \<noteq> RPMTAG_DIRINDEXES)"
  shows "getFileInfo indexEntries = Return ([], None)"
proof -
  from getFileInfo_loop_wellFormed[OF assms(1)]
  obtain vars where l: "getFileInfo_loop nilFileArrays indexEntries = Return (Inr vars)"
    by blast
  from assms(2) have "allDirs vars = None \<or> allDirIndexes vars = None"
  proof
    assume "\<forall>x \<in> set indexEntries. Tag (Info x) \<noteq> RPMTAG_DIRNAMES"
    from getFileInfo_loop_keeps_allDirs[OF l this] show ?thesis
      by (simp add: nilFileArrays_def)
  next
    assume "\<forall>x \<in> set indexEntries. Tag (Info x) \<noteq> RPMTAG_DIRINDEXES"
    from getFileInfo_loop_keeps_allDirIndexes[OF l this] show ?thesis
      by (simp add: nilFileArrays_def)
  qed
  then show ?thesis using l
    by (auto simp add: getFileInfo_def split: option.splits)
qed

theorem getFileInfo_without_dirs_witness:
  "getFileInfo [\<lparr>Info = \<lparr>Tag = RPMTAG_BASENAMES, Type = RPM_STRING_ARRAY_TYPE\<rparr>, Length = 2,
                 Data = [CHR ''a'', NUL]\<rparr>] = Return ([], None)"
  by (rule getFileInfo_without_dirs)
     (simp_all add: wellFormed_def typeMismatch_def decodable_def catalog_def tag_defs)

theorem getFileInfo_without_dirs_counterexample:
  "getFileInfo [\<lparr>Info = \<lparr>Tag = RPMTAG_BASENAMES, Type = RPM_STRING_ARRAY_TYPE\<rparr>, Length = 2,
                 Data = [CHR ''a'', NUL]\<rparr>,
                \<lparr>Info = \<lparr>Tag = RPMTAG_FILESIZES, Type = RPM_STRING_TYPE\<rparr>, Length = 4,
                 Data = [CHR 0x00, CHR 0x00, CHR 0x00, CHR 0x07]\<rparr>]
     = Return ([], Some (New ''invalid tag file-sizes''))"
  by code_simp

section \<open>The package decode \<open>newPackage\<close>\<close>

subsection \<open>Failures\<close>

lemma newPackage_error_result:
  assumes "newPackage indexEntries = Return (pkgInfo, Some err)"
  shows "pkgInfo = None \<and> (isInvalidTagType err \<or> isDecodeError err)"
proof -
  have n: "pkgInfo = None"
  proof (cases pkgInfo)
    case None
    then show ?thesis .
  next
    case (Some p)
    with assms newPackage_success[of indexEntries p "Some err"] show ?thesis by simp
  qed
  show ?thesis
  proof (cases "newPackage_loop emptyPackageInfo indexEntries")
    case (Inl err')
    with assms have "err' = err" by (simp add: newPackage_def)
    with Inl n show ?thesis using newPackage_loop_error_kind by blast
  next
    case (Inr p)
    with assms obtain files err' where g: "getFileInfo indexEntries = Return (files, Some err')"
      and e: "err = Errorf ''failed to read package files'' err'"
      by (auto simp add: newPackage_def split: exec.splits option.splits)
    from getFileInfo_error[OF g] have "isInvalidTagType err' \<or> isDecodeError err'"
      using getFileInfo_loop_error_kind by blast
    with e n show ?thesis by simp
  qed
qed

lemma newPackage_nil_error_result:
  assumes "newPackage indexEntries = Return (pkgInfo, None)"
  shows "pkgInfo \<noteq> None"
  using assms
  by (auto simp add: newPackage_def split: exec.splits sum.splits option.splits)

text \<open>
  Claim C10. Whenever \<open>newPackage\<close> returns an error, the package pointer it returns with
  it is \<open>nil\<close>: no branch hands back the partially filled record. The error is an
  invalid-tag error or a decode error, wrapped when it comes from the file-list
  reconstruction. Only a return without error carries a package. (A panic of the file-list
  reconstruction returns nothing at all.)
\<close>

theorem newPackage_no_partial_result:
  "(\<forall>pkgInfo err. newPackage indexEntries = Return (pkgInfo, Some err) \<longrightarrow>
       pkgInfo = None \<and> (isInvalidTagType err \<or> isDecodeError err)) \<and>
   (\<forall>pkgInfo. newPackage indexEntries = Return (pkgInfo, None) \<longrightarrow> pkgInfo \<noteq> None)"
  using newPackage_error_result newPackage_nil_error_result by blast

theorem newPackage_no_partial_result_witness:
  "newPackage
     [\<lparr>Info = \<lparr>Tag = RPMTAG_NAME, Type = RPM_STRING_TYPE\<rparr>, Length = 4, Data = ''bash''\<rparr>,
      \<lparr>Info = \<lparr>Tag = RPMTAG_EPOCH, Type = RPM_INT32_TYPE\<rparr>, Length = 4,
        Data = [CHR 0x00, CHR 0x01]\<rparr>]
     = Return (None, Some (Errorf ''failed to parse epoch''
                             (Errorf ''failed to read binary'' ErrUnexpectedEOF))) \<and>
   isDecodeError (Errorf ''failed to parse epoch''
                    (Errorf ''failed to read binary'' ErrUnexpectedEOF))"
proof -
  let ?es = "[\<lparr>Info = \<lparr>Tag = RPMTAG_NAME, Type = RPM_STRING_TYPE\<rparr>, Length = 4, Data = ''bash''\<rparr>,
      \<lparr>Info = \<lparr>Tag = RPMTAG_EPOCH, Type = RPM_INT32_TYPE\<rparr>, Length = 4,
        Data = [CHR 0x00, CHR 0x01]\<rparr>]"
  let ?err = "Errorf ''failed to parse epoch'' (Errorf ''failed to read binary'' ErrUnexpectedEOF)"
  have l: "newPackage_loop emptyPackageInfo ?es = Inl ?err"
    by code_simp
  then obtain p where p: "newPackage ?es = Return (p, Some ?err)"
    by (simp add: newPackage_def)
  with newPackage_no_partial_result[of ?es]
  have "p = None" and k: "isInvalidTagType ?err \<or> isDecodeError ?err" by blast+
  have "\<not> isInvalidTagType ?err"
    by (simp add: isInvalidTagType_def recognizedTags_def invalidTagType_simps)
  with k p \<open>p = None\<close> show ?thesis by simp
qed







subsection \<open>Scalar fields\<close>

text \<open>
  Each \<open>case\<close> of the scalar \<open>switch\<close> overwrites the field of its tag and leaves the
  other fields alone, so after the loop each field holds what the last entry of its tag
  decoded to.
\<close>

lemma scalarField_simps:
  "scalarField RPMTAG_NAME pkgInfo = Some (StringValue (Name pkgInfo))"
  "scalarField RPMTAG_EPOCH pkgInfo = Some (IntValue (Epoch pkgInfo))"
  "scalarField RPMTAG_VERSION pkgInfo = Some (StringValue (Version pkgInfo))"
  "scalarField RPMTAG_RELEASE pkgInfo = Some (StringValue (Release pkgInfo))"
  "scalarField RPMTAG_ARCH pkgInfo = Some (StringValue (Arch pkgInfo))"
  "scalarField RPMTAG_SOURCERPM pkgInfo = Some (StringValue (SourceRpm pkgInfo))"
  "scalarField RPMTAG_LICENSE pkgInfo = Some (StringValue (License pkgInfo))"
  "scalarField RPMTAG_VENDOR pkgInfo = Some (StringValue (Vendor pkgInfo))"
  "scalarField RPMTAG_SIZE pkgInfo = Some (IntValue (PackageInfo.Size pkgInfo))"
  by (simp_all add: scalarField_def tag_defs)

lemma decodedValue_simps:
  "Tag (Info e) = RPMTAG_NAME \<Longrightarrow> decodedValue e = Some (StringValue (parseString (Data e)))"
  "Tag (Info e) = RPMTAG_VERSION \<Longrightarrow> decodedValue e = Some (StringValue (parseString (Data e)))"
  "Tag (Info e) = RPMTAG_RELEASE \<Longrightarrow> decodedValue e = Some (StringValue (parseString (Data e)))"
  "Tag (Info e) = RPMTAG_ARCH \<Longrightarrow> decodedValue e = Some (StringValue (parseString (Data e)))"
  "Tag (Info e) = RPMTAG_SOURCERPM \<Longrightarrow>
     decodedValue e = Some (StringValue (if parseString (Data e) = ''(none)'' then []
                                         else parseString (Data e)))"
  "Tag (Info e) = RPMTAG_LICENSE \<Longrightarrow>
     decodedValue e = Some (StringValue (if parseString (Data e) = ''(none)'' then []
                                         else parseString (Data e)))"
  "Tag (Info e) = RPMTAG_VENDOR \<Longrightarrow>
     decodedValue e = Some (StringValue (if parseString (Data e) = ''(none)'' then []
                                         else parseString (Data e)))"
  "Tag (Info e) = RPMTAG_EPOCH \<Longrightarrow>
     decodedValue e = (case parseInt32 (Data e) of Inl err \<Rightarrow> None | Inr v \<Rightarrow> Some (IntValue v))"
  "Tag (Info e) = RPMTAG_SIZE \<Longrightarrow>
     decodedValue e = (case parseInt32 (Data e) of Inl err \<Rightarrow> None | Inr v \<Rightarrow> Some (IntValue v))"
  by (simp_all add: decodedValue_def tag_defs)

lemma newPackage_switch_assigns:
  assumes "newPackage_switch pkgInfo e = Inr pkgInfo'" and "scalarTag (Tag (Info e))"
  shows "scalarField (Tag (Info e)) pkgInfo' = decodedValue e \<and> decodedValue e \<noteq> None"
  using assms(2)
  by (cases rule: scalarTag_cases)
     (use assms(1) in \<open>auto simp add: newPackage_switch_cases scalarField_simps
        decodedValue_simps split: if_splits sum.splits\<close>)

lemma scalarField_update_other:
  "tag \<noteq> RPMTAG_NAME \<Longrightarrow> scalarField tag (pkgInfo\<lparr>Name := s\<rparr>) = scalarField tag pkgInfo"
  "tag \<noteq> RPMTAG_EPOCH \<Longrightarrow> scalarField tag (pkgInfo\<lparr>Epoch := n\<rparr>) = scalarField tag pkgInfo"
  "tag \<noteq> RPMTAG_VERSION \<Longrightarrow> scalarField tag (pkgInfo\<lparr>Version := s\<rparr>) = scalarField tag pkgInfo"
  "tag \<noteq> RPMTAG_RELEASE \<Longrightarrow> scalarField tag (pkgInfo\<lparr>Release := s\<rparr>) = scalarField tag pkgInfo"
  "tag \<noteq> RPMTAG_ARCH \<Longrightarrow> scalarField tag (pkgInfo\<lparr>Arch := s\<rparr>) = scalarField tag pkgInfo"
  "tag \<noteq> RPMTAG_SOURCERPM \<Longrightarrow> scalarField tag (pkgInfo\<lparr>SourceRpm := s\<rparr>) = scalarField tag pkgInfo"
  "tag \<noteq> RPMTAG_LICENSE \<Longrightarrow> scalarField tag (pkgInfo\<lparr>License := s\<rparr>) = scalarField tag pkgInfo"
  "tag \<noteq> RPMTAG_VENDOR \<Longrightarrow> scalarField tag (pkgInfo\<lparr>Vendor := s\<rparr>) = scalarField tag pkgInfo"
  "tag \<noteq> RPMTAG_SIZE \<Longrightarrow> scalarField tag (pkgInfo\<lparr>PackageInfo.Size := n\<rparr>) = scalarField tag pkgInfo"
  "scalarField tag (pkgInfo\<lparr>Files := fs\<rparr>) = scalarField tag pkgInfo"
  by (simp_all add: scalarField_def)

lemma newPackage_switch_keeps:
  assumes "newPackage_switch pkgInfo e = Inr pkgInfo'" and "Tag (Info e) \<noteq> tag"
  shows "scalarField tag pkgInfo' = scalarField tag pkgInfo"
proof (cases "scalarTag (Tag (Info e))")
  case False
  with assms show ?thesis by (simp add: newPackage_switch_other)
next
  case True
  then show ?thesis
    by (cases rule: scalarTag_cases)
       (use assms in \<open>auto simp add: newPackage_switch_cases scalarField_update_other
          split: if_splits sum.splits\<close>)
qed

lemma newPackage_loop_last_wins:
  assumes "newPackage_loop pkgInfo es = Inr pkgInfo'" and "scalarTag tag"
  shows "scalarField tag pkgInfo' =
           (if filter (\<lambda>e. Tag (Info e) = tag) es = [] then scalarField tag pkgInfo
            else decodedValue (last (filter (\<lambda>e. Tag (Info e) = tag) es))) \<and>
         (filter (\<lambda>e. Tag (Info e) = tag) es \<noteq> [] \<longrightarrow>
            decodedValue (last (filter (\<lambda>e. Tag (Info e) = tag) es)) \<noteq> None)"
  using assms(1)
proof (induction es arbitrary: pkgInfo)
  case Nil
  then show ?case by simp
next
  case (Cons x xs)
  from Cons.prems obtain p where s: "newPackage_switch pkgInfo x = Inr p"
    and l: "newPackage_loop p xs = Inr pkgInfo'"
    by (auto split: sum.splits)
  note ih = Cons.IH[OF l]
  show ?case
  proof (cases "filter (\<lambda>e. Tag (Info e) = tag) xs = []")
    case False
    with ih show ?thesis by simp
  next
    case True
    show ?thesis
    proof (cases "Tag (Info x) = tag")
      case True
      with newPackage_switch_assigns[OF s] assms(2)
      have "scalarField tag p = decodedValue x \<and> decodedValue x \<noteq> None" by simp
      with ih \<open>filter (\<lambda>e. Tag (Info e) = tag) xs = []\<close> True show ?thesis by simp
    next
      case False
      from newPackage_switch_keeps[OF s False] ih
        \<open>filter (\<lambda>e. Tag (Info e) = tag) xs = []\<close> False
      show ?thesis by simp
    qed
  qed
qed

lemma newPackage_field_of_last:
  assumes "newPackage es = Return (Some pkgInfo, None)" and "scalarTag tag"
    and "filter (\<lambda>e. Tag (Info e) = tag) es \<noteq> []"
  shows "scalarField tag pkgInfo = decodedValue (last (filter (\<lambda>e. Tag (Info e) = tag) es)) \<and>
         scalarField tag pkgInfo \<noteq> None"
proof -
  from newPackage_success[OF assms(1)] obtain pkgInfo0 files
    where l: "newPackage_loop emptyPackageInfo es = Inr pkgInfo0"
      and p: "pkgInfo = pkgInfo0\<lparr>Files := files\<rparr>"
    by blast
  from newPackage_loop_last_wins[OF l assms(2)] assms(3) p
  show ?thesis by (simp add: scalarField_update_other)
qed

text \<open>
  Claim C9. When \<open>newPackage\<close> returns a package and the sequence has one or more entries
  with a given scalar tag, the field of that tag equals the decoded value of the last such
  entry in sequence order, whatever the earlier ones held: the last write wins and nothing
  is accumulated.
\<close>

theorem newPackage_last_write_wins:
  assumes "newPackage indexEntries = Return (Some pkgInfo, None)"
    and "scalarTag tag"
    and "filter (\<lambda>e. Tag (Info e) = tag) indexEntries \<noteq> []"
  shows "scalarField tag pkgInfo =
           decodedValue (last (filter (\<lambda>e. Tag (Info e) = tag) indexEntries)) \<and>
         scalarField tag pkgInfo \<noteq> None"
  using assms by (rule newPackage_field_of_last)

theorem newPackage_last_write_wins_witness:
  "newPackage
     [\<lparr>Info = \<lparr>Tag = RPMTAG_NAME, Type = RPM_STRING_TYPE\<rparr>, Length = 3, Data = ''zsh''\<rparr>,
      \<lparr>Info = \<lparr>Tag = RPMTAG_VERSION, Type = RPM_STRING_TYPE\<rparr>, Length = 3, Data = ''1.0''\<rparr>,
      \<lparr>Info = \<lparr>Tag = RPMTAG_NAME, Type = RPM_STRING_TYPE\<rparr>, Length = 5,
        Data = ''bash'' @ [NUL]\<rparr>]
     = Return (Some \<lparr>Epoch = 0, Name = ''bash'', Version = ''1.0'', Release = [], Arch = [],
                      SourceRpm = [], PackageInfo.Size = 0, License = [], Vendor = [],
                      Files = []\<rparr>, None) \<and>
   scalarField RPMTAG_NAME
     \<lparr>Epoch = 0, Name = ''bash'', Version = ''1.0'', Release = [], Arch = [],
      SourceRpm = [], PackageInfo.Size = 0, License = [], Vendor = [], Files = []\<rparr>
     = Some (StringValue ''bash'')"
proof -
  let ?es = "[\<lparr>Info = \<lparr>Tag = RPMTAG_NAME, Type = RPM_STRING_TYPE\<rparr>, Length = 3, Data = ''zsh''\<rparr>,
      \<lparr>Info = \<lparr>Tag = RPMTAG_VERSION, Type = RPM_STRING_TYPE\<rparr>, Length = 3, Data = ''1.0''\<rparr>,
      \<lparr>Info = \<lparr>Tag = RPMTAG_NAME, Type = RPM_STRING_TYPE\<rparr>, Length = 5,
        Data = ''bash'' @ [NUL]\<rparr>]"
  let ?pkg = "\<lparr>Epoch = 0, Name = ''bash'', Version = ''1.0'', Release = [], Arch = [],
      SourceRpm = [], PackageInfo.Size = 0, License = [], Vendor = [], Files = []\<rparr>"
  have r: "newPackage ?es = Return (Some ?pkg, None)"
    by code_simp
  have s: "scalarTag RPMTAG_NAME" by (simp add: scalarTag_def)
  have f: "filter (\<lambda>e. Tag (Info e) = RPMTAG_NAME) ?es =
             [\<lparr>Info = \<lparr>Tag = RPMTAG_NAME, Type = RPM_STRING_TYPE\<rparr>, Length = 3, Data = ''zsh''\<rparr>,
              \<lparr>Info = \<lparr>Tag = RPMTAG_NAME, Type = RPM_STRING_TYPE\<rparr>, Length = 5,
                Data = ''bash'' @ [NUL]\<rparr>]"
    by (simp add: tag_defs)
  have d: "decodedValue \<lparr>Info = \<lparr>Tag = RPMTAG_NAME, Type = RPM_STRING_TYPE\<rparr>, Length = 5,
                Data = ''bash'' @ [NUL]\<rparr> = Some (StringValue ''bash'')"
    by code_simp
  from newPackage_last_write_wins[OF r s] f d
  have "scalarField RPMTAG_NAME ?pkg = Some (StringValue ''bash'')" by simp
  with r show ?thesis by simp
qed

lemma newPackage_final_none_sentinel:
  assumes "newPackage (pre @ e # post) = Return (Some pkgInfo, None)"
    and "\<forall>x \<in> set post. Tag (Info x) \<noteq> Tag (Info e)"
    and "parseString (Data e) = ''(none)''"
  shows "(Tag (Info e) = RPMTAG_SOURCERPM \<longrightarrow> SourceRpm pkgInfo = []) \<and>
         (Tag (Info e) = RPMTAG_LICENSE \<longrightarrow> License pkgInfo = []) \<and>
         (Tag (Info e) = RPMTAG_VENDOR \<longrightarrow> Vendor pkgInfo = []) \<and>
         (Tag (Info e) = RPMTAG_NAME \<longrightarrow> Name pkgInfo = ''(none)'')"
proof -
  let ?P = "\<lambda>x. Tag (Info x) = Tag (Info e)"
  have "filter ?P post = []" using assms(2) by (simp add: filter_empty_conv)
  then have f: "filter ?P (pre @ e # post) = filter ?P pre @ [e]" by simp
  then have ne: "filter ?P (pre @ e # post) \<noteq> []" and la: "last (filter ?P (pre @ e # post)) = e"
    by simp_all
  have v: "scalarTag (Tag (Info e)) \<Longrightarrow> scalarField (Tag (Info e)) pkgInfo = decodedValue e"
    using newPackage_field_of_last[OF assms(1) _ ne] la by simp
  show ?thesis
  proof (intro conjI impI)
    assume t: "Tag (Info e) = RPMTAG_SOURCERPM"
    then have "scalarTag (Tag (Info e))" by (simp add: scalarTag_def)
    from v[OF this] t assms(3) show "SourceRpm pkgInfo = []"
      by (simp add: scalarField_simps decodedValue_simps)
  next
    assume t: "Tag (Info e) = RPMTAG_LICENSE"
    then have "scalarTag (Tag (Info e))" by (simp add: scalarTag_def)
    from v[OF this] t assms(3) show "License pkgInfo = []"
      by (simp add: scalarField_simps decodedValue_simps)
  next
    assume t: "Tag (Info e) = RPMTAG_VENDOR"
    then have "scalarTag (Tag (Info e))" by (simp add: scalarTag_def)
    from v[OF this] t assms(3) show "Vendor pkgInfo = []"
      by (simp add: scalarField_simps decodedValue_simps)
  next
    assume t: "Tag (Info e) = RPMTAG_NAME"
    then have "scalarTag (Tag (Info e))" by (simp add: scalarTag_def)
    from v[OF this] t assms(3) show "Name pkgInfo = ''(none)''"
      by (simp add: scalarField_simps decodedValue_simps)
  qed
qed

lemma newPackage_switch_none_sentinel:
  assumes "parseString (Data e) = ''(none)''" and "Type (Info e) = RPM_STRING_TYPE"
  shows "(Tag (Info e) = RPMTAG_SOURCERPM \<longrightarrow>
            newPackage_switch pkgInfo e = Inr (pkgInfo\<lparr>SourceRpm := []\<rparr>)) \<and>
         (Tag (Info e) = RPMTAG_LICENSE \<longrightarrow>
            newPackage_switch pkgInfo e = Inr (pkgInfo\<lparr>License := []\<rparr>)) \<and>
         (Tag (Info e) = RPMTAG_VENDOR \<longrightarrow>
            newPackage_switch pkgInfo e = Inr (pkgInfo\<lparr>Vendor := []\<rparr>)) \<and>
         (Tag (Info e) = RPMTAG_NAME \<longrightarrow>
            newPackage_switch pkgInfo e = Inr (pkgInfo\<lparr>Name := ''(none)''\<rparr>))"
  using assms by (simp add: newPackage_switch_cases)

text \<open>
  Claim C6. Let \<open>e\<close> be an entry of \<open>STRING\<close> type whose decoded string is the literal
  \<open>"(none)"\<close>. The \<open>case\<close> of a \<open>SOURCERPM\<close>, \<open>LICENSE\<close> or \<open>VENDOR\<close> entry stores the empty
  string in the corresponding field; the \<open>case\<close> of a \<open>NAME\<close> entry stores the literal
  \<open>"(none)"\<close>. So in the package \<open>newPackage\<close> returns, when no later entry has the tag of
  \<open>e\<close>, the field is the empty string for the three tags and \<open>"(none)"\<close> for \<open>NAME\<close>.
\<close>

theorem newPackage_none_sentinel:
  assumes "parseString (Data e) = ''(none)''" and "Type (Info e) = RPM_STRING_TYPE"
  shows "(Tag (Info e) = RPMTAG_SOURCERPM \<longrightarrow>
            newPackage_switch pkgInfo e = Inr (pkgInfo\<lparr>SourceRpm := []\<rparr>)) \<and>
         (Tag (Info e) = RPMTAG_LICENSE \<longrightarrow>
            newPackage_switch pkgInfo e = Inr (pkgInfo\<lparr>License := []\<rparr>)) \<and>
         (Tag (Info e) = RPMTAG_VENDOR \<longrightarrow>
            newPackage_switch pkgInfo e = Inr (pkgInfo\<lparr>Vendor := []\<rparr>)) \<and>
         (Tag (Info e) = RPMTAG_NAME \<longrightarrow>
            newPackage_switch pkgInfo e = Inr (pkgInfo\<lparr>Name := ''(none)''\<rparr>)) \<and>
         (\<forall>pre post result.
            newPackage (pre @ e # post) = Return (Some result, None) \<and>
            (\<forall>x \<in> set post. Tag (Info x) \<noteq> Tag (Info e)) \<longrightarrow>
              (Tag (Info e) = RPMTAG_SOURCERPM \<longrightarrow> SourceRpm result = []) \<and>
              (Tag (Info e) = RPMTAG_LICENSE \<longrightarrow> License result = []) \<and>
              (Tag (Info e) = RPMTAG_VENDOR \<longrightarrow> Vendor result = []) \<and>
              (Tag (Info e) = RPMTAG_NAME \<longrightarrow> Name result = ''(none)''))"
proof -
  have fin: "(Tag (Info e) = RPMTAG_SOURCERPM \<longrightarrow> SourceRpm result = []) \<and>
         (Tag (Info e) = RPMTAG_LICENSE \<longrightarrow> License result = []) \<and>
         (Tag (Info e) = RPMTAG_VENDOR \<longrightarrow> Vendor result = []) \<and>
         (Tag (Info e) = RPMTAG_NAME \<longrightarrow> Name result = ''(none)'')"
    if "newPackage (pre @ e # post) = Return (Some result, None)"
      and "\<forall>x \<in> set post. Tag (Info x) \<noteq> Tag (Info e)" for pre post result
    using that assms(1) by (rule newPackage_final_none_sentinel)
  from newPackage_switch_none_sentinel[OF assms, of pkgInfo] fin show ?thesis by blast
qed

theorem newPackage_none_sentinel_witness:
  "newPackage_switch emptyPackageInfo
     \<lparr>Info = \<lparr>Tag = RPMTAG_SOURCERPM, Type = RPM_STRING_TYPE\<rparr>, Length = 7,
        Data = ''(none)'' @ [NUL]\<rparr> = Inr (emptyPackageInfo\<lparr>SourceRpm := []\<rparr>) \<and>
   newPackage_switch emptyPackageInfo
     \<lparr>Info = \<lparr>Tag = RPMTAG_NAME, Type = RPM_STRING_TYPE\<rparr>, Length = 6,
        Data = ''(none)''\<rparr> = Inr (emptyPackageInfo\<lparr>Name := ''(none)''\<rparr>) \<and>
   (\<exists>result.
      newPackage
        ([\<lparr>Info = \<lparr>Tag = RPMTAG_SOURCERPM, Type = RPM_STRING_TYPE\<rparr>, Length = 3,
            Data = ''src''\<rparr>] @
         \<lparr>Info = \<lparr>Tag = RPMTAG_SOURCERPM, Type = RPM_STRING_TYPE\<rparr>, Length = 7,
            Data = ''(none)'' @ [NUL]\<rparr> #
         [\<lparr>Info = \<lparr>Tag = RPMTAG_NAME, Type = RPM_STRING_TYPE\<rparr>, Length = 6,
            Data = ''(none)''\<rparr>]) = Return (Some result, None) \<and>
      SourceRpm result = [] \<and> Name result = ''(none)'')"
proof -
  let ?n = "\<lparr>Info = \<lparr>Tag = RPMTAG_NAME, Type = RPM_STRING_TYPE\<rparr>, Length = 6, Data = ''(none)''\<rparr>"
  let ?s = "\<lparr>Info = \<lparr>Tag = RPMTAG_SOURCERPM, Type = RPM_STRING_TYPE\<rparr>, Length = 7,
         Data = ''(none)'' @ [NUL]\<rparr>"
  let ?pre = "[\<lparr>Info = \<lparr>Tag = RPMTAG_SOURCERPM, Type = RPM_STRING_TYPE\<rparr>, Length = 3, Data = ''src''\<rparr>]"
  let ?pkg = "\<lparr>Epoch = 0, Name = ''(none)'', Version = [], Release = [], Arch = [],
      SourceRpm = [], PackageInfo.Size = 0, License = [], Vendor = [], Files = []\<rparr>"
  have ps: "parseString (Data ?s) = ''(none)''" by code_simp
  have pn: "parseString (Data ?n) = ''(none)''" by code_simp
  have ts: "Type (Info ?s) = RPM_STRING_TYPE" and tn: "Type (Info ?n) = RPM_STRING_TYPE"
    by simp_all
  note s = newPackage_none_sentinel[OF ps ts, of emptyPackageInfo]
  note n = newPackage_none_sentinel[OF pn tn, of emptyPackageInfo]
  from s have a: "newPackage_switch emptyPackageInfo ?s = Inr (emptyPackageInfo\<lparr>SourceRpm := []\<rparr>)"
    by simp
  from n have b: "newPackage_switch emptyPackageInfo ?n = Inr (emptyPackageInfo\<lparr>Name := ''(none)''\<rparr>)"
    by simp
  have c: "newPackage (?pre @ ?s # [?n]) = Return (Some ?pkg, None)"
    by code_simp
  have c': "newPackage ((?pre @ [?s]) @ ?n # []) = Return (Some ?pkg, None)"
    by code_simp
  have d: "\<forall>x \<in> set [?n]. Tag (Info x) \<noteq> Tag (Info ?s)" by (simp add: tag_defs)
  note s' = s[THEN conjunct2, THEN conjunct2, THEN conjunct2, THEN conjunct2, rule_format,
      of ?pre "[?n]" ?pkg]
  note n' = n[THEN conjunct2, THEN conjunct2, THEN conjunct2, THEN conjunct2, rule_format,
      of "?pre @ [?s]" "[]" ?pkg]
  from s' c d have e: "SourceRpm ?pkg = []" by simp
  from n' c' have f: "Name ?pkg = ''(none)''" by simp
  from a b c e f show ?thesis by blast
qed

end
